theory Spec2Isabelle
  imports Complex_Main "HOL-Library.Multiset" "HOL-Library.Product_Lexorder" "HOL-Library.Sublist"
begin

section \<open>Input data\<close>

text \<open>
  The script \<^verbatim>\<open>analyseventes.py\<close> reads a CSV export of sales, keeps two of its columns
  (a country code and a sale date) and counts sales per period and per class of country.

  A cell of the date column is modelled by what \<^verbatim>\<open>pd.to_datetime\<close> makes of it: a text
  that cannot be parsed (\<open>Illisible\<close>, the conversion raises), a missing value (\<open>NaT\<close>), or
  a timestamp, held as pandas holds it, in nanoseconds since 1970-01-01 00:00.
  The start date \<^verbatim>\<open>date_debut\<close> is modelled in the same way.

  A cell of the country column is a text or a missing value (\<open>None\<close>, pandas' NaN);
  cells that pandas reads as numbers are outside the model. A \<open>char\<close> stands for a code
  point below 256; code points beyond are outside the model. A column in which every cell
  is missing is a column of floats for pandas, and not a column of texts.
  The column named \<^verbatim>\<open>colonne_pays\<close> is read as the field \<open>pays\<close> and the column named
  \<^verbatim>\<open>colonne_date\<close> as the field \<open>date\<close>; the two names are taken to be different.
\<close>

datatype datetime = Illisible | NaT | Timestamp int

record vente =
  pays :: "string option"
  date :: datetime

record dataframe =
  columns :: "string list"
  lignes :: "vente list"

text \<open>What \<^verbatim>\<open>pd.read_csv(fichier_csv, sep=';')\<close> gives (lines 26-35).\<close>

datatype lecture = FileNotFound | EchecLecture | Charge dataframe

text \<open>
  Every way the main routine ends without its pair of tables. The first seven print a
  message and return \<^verbatim>\<open>None\<close>; \<open>LengthMismatch\<close> is the \<^verbatim>\<open>ValueError\<close> that
  assigning \<^verbatim>\<open>.columns\<close> raises (expected number of columns, number of new labels),
  \<open>KeyError\<close> the one of a column lookup and \<open>AttributeError\<close> the one of the
  \<^verbatim>\<open>.str\<close> accessor on a column that is not a column of texts; nothing in the routine
  catches these three.
\<close>

datatype erreur =
    FichierNonTrouve string
  | ErreurChargement
  | ColonneAbsente string "string list"
  | ErreurConversionDates
  | AucuneDonnee
  | ErreurFiltrageDate
  | RegroupementNonSupporte string
  | LengthMismatch nat nat
  | KeyError string
  | AttributeError

definition bind_err :: "'e + 'a \<Rightarrow> ('a \<Rightarrow> 'e + 'b) \<Rightarrow> 'e + 'b" where
  "bind_err m f = (case m of Inl e \<Rightarrow> Inl e | Inr x \<Rightarrow> f x)"

section \<open>Classification of countries (lines 69-76)\<close>

definition pays_francophones :: "string list" where
  "pays_francophones = [''fr'', ''be'', ''ch'', ''nc'', ''ca'', ''lu'']"

text \<open>
  \<^verbatim>\<open>str.lower\<close> on code points below 256: the letters A-Z and the capital letters of
  Latin-1 (192-222 but the multiplication sign 215) move up by 32.
\<close>

definition lower_char :: "char \<Rightarrow> char" where
  "lower_char c =
     (let n = (of_char c :: nat)
      in if (65 \<le> n \<and> n \<le> 90) \<or> (192 \<le> n \<and> n \<le> 222 \<and> n \<noteq> 215)
         then char_of (n + 32) else c)"

definition lower :: "string \<Rightarrow> string" where
  "lower s = map lower_char s"

text \<open>\<^verbatim>\<open>str.isspace\<close> on code points below 256, which is what \<^verbatim>\<open>str.strip()\<close> removes.\<close>

definition isspace :: "char \<Rightarrow> bool" where
  "isspace c =
     (let n = (of_char c :: nat)
      in (9 \<le> n \<and> n \<le> 13) \<or> (28 \<le> n \<and> n \<le> 32) \<or> n = 133 \<or> n = 160)"

definition strip :: "string \<Rightarrow> string" where
  "strip s = rev (dropWhile isspace (rev (dropWhile isspace s)))"

text \<open>Line 73: \<^verbatim>\<open>.str.lower().str.strip()\<close>; a missing value stays missing.\<close>

definition normalisation :: "string option \<Rightarrow> string option" where
  "normalisation c = map_option (\<lambda>s. strip (lower s)) c"

text \<open>Line 76: \<^verbatim>\<open>.isin(pays_francophones)\<close>; a missing value is in no list.\<close>

definition isin :: "string list \<Rightarrow> string option \<Rightarrow> bool" where
  "isin l c = (case c of None \<Rightarrow> False | Some s \<Rightarrow> s \<in> set l)"

definition est_francophone :: "string option \<Rightarrow> bool" where
  "est_francophone c = isin pays_francophones (normalisation c)"

section \<open>Filter on the start date (lines 57-59)\<close>

text \<open>
  The comparison \<^verbatim>\<open>df[colonne_date] >= date_limite\<close>, element by element: it is false
  as soon as one side is \<^verbatim>\<open>NaT\<close>.
\<close>

definition ge_datetime :: "datetime \<Rightarrow> datetime \<Rightarrow> bool" where
  "ge_datetime a b =
     (case a of Timestamp x \<Rightarrow> (case b of Timestamp y \<Rightarrow> y \<le> x | _ \<Rightarrow> False) | _ \<Rightarrow> False)"

definition filtrage :: "datetime \<Rightarrow> vente list \<Rightarrow> vente list" where
  "filtrage date_limite df = filter (\<lambda>v. ge_datetime (date v) date_limite) df"

section \<open>Periods (lines 79-93)\<close>

text \<open>The accent of the last label is dropped; the labels are only printed.\<close>

definition regroupements_labels :: "(string \<times> string) list" where
  "regroupements_labels =
     [(''W'', ''semaine''), (''M'', ''mois''), (''Q'', ''trimestre''), (''Y'', ''annee'')]"

text \<open>
  \<^verbatim>\<open>dt.to_period\<close> belongs to pandas. It is modelled by the ordinal pandas gives a
  period: the number of the year, quarter or month counted from 1970, and for \<^verbatim>\<open>'W'\<close>
  the number of the week from Monday to Sunday (1970-01-01, a Thursday, is in week 1).
  The calendar date of a day number is computed by the usual civil-calendar formula.
\<close>

definition jour :: "int \<Rightarrow> int" where
  "jour ts = ts div 86400000000000"

definition civil_from_days :: "int \<Rightarrow> int \<times> int \<times> int" where
  "civil_from_days z0 =
     (let z = z0 + 719468;
          era = z div 146097;
          doe = z mod 146097;
          yoe = (doe - doe div 1460 + doe div 36524 - doe div 146096) div 365;
          doy = doe - (365 * yoe + yoe div 4 - yoe div 100);
          mp = (5 * doy + 2) div 153;
          d = doy - (153 * mp + 2) div 5 + 1;
          m = (if mp < 10 then mp + 3 else mp - 9);
          y = yoe + era * 400 + (if m \<le> 2 then 1 else 0)
      in (y, m, d))"

definition to_period :: "string \<Rightarrow> datetime \<Rightarrow> int option" where
  "to_period regroupement t =
     (case t of
        Timestamp ts \<Rightarrow>
          (let (y, m, d) = civil_from_days (jour ts)
           in Some (if regroupement = ''W'' then (jour ts + 3) div 7 + 1
                    else if regroupement = ''M'' then (y - 1970) * 12 + (m - 1)
                    else if regroupement = ''Q'' then (y - 1970) * 4 + (m - 1) div 3
                    else y - 1970))
      | _ \<Rightarrow> None)"

section \<open>Tables\<close>

text \<open>
  A table of numbers as pandas holds it: the index (here the periods) and the columns in
  their order, each a label and one number per index entry. Numbers are rationals; the
  counts are integers among them, and the percentages are binary64 values (below).
\<close>

record 'c frame =
  index :: "int list"
  colonnes :: "('c \<times> rat list) list"

definition noms :: "'c frame \<Rightarrow> 'c list" where
  "noms f = map fst (colonnes f)"

text \<open>\<^verbatim>\<open>f[c]\<close>: the column, or \<^verbatim>\<open>KeyError\<close>.\<close>

definition getcol :: "string \<Rightarrow> string frame \<Rightarrow> erreur + rat list" where
  "getcol c f = (case map_of (colonnes f) c of None \<Rightarrow> Inl (KeyError c) | Some v \<Rightarrow> Inr v)"

text \<open>\<^verbatim>\<open>f[c] = vals\<close>: replaces the column, or appends it when the label is new.\<close>

definition setcol :: "string \<Rightarrow> rat list \<Rightarrow> string frame \<Rightarrow> string frame" where
  "setcol c vals f =
     (if c \<in> set (noms f)
      then f\<lparr>colonnes := map (\<lambda>(n, old). if n = c then (n, vals) else (n, old)) (colonnes f)\<rparr>
      else f\<lparr>colonnes := colonnes f @ [(c, vals)]\<rparr>)"

text \<open>\<^verbatim>\<open>f.columns = labels\<close>: raises when the number of labels is not the number of columns.\<close>

definition set_columns :: "string list \<Rightarrow> 'c frame \<Rightarrow> erreur + string frame" where
  "set_columns labels f =
     (if length labels \<noteq> length (colonnes f)
      then Inl (LengthMismatch (length (colonnes f)) (length labels))
      else Inr \<lparr>index = index f, colonnes = zip labels (map snd (colonnes f))\<rparr>)"

text \<open>
  \<^verbatim>\<open>groupby(keys).size()\<close>: one entry per key that occurs, in ascending order of the
  keys, with the number of rows that have it. Rows whose key is missing are dropped.
\<close>

definition groupby_size :: "('k::linorder) option list \<Rightarrow> ('k \<times> int) list" where
  "groupby_size ks =
     (let present = List.map_filter (\<lambda>k. k) ks
      in map (\<lambda>k. (k, int (count_list present k))) (sort (remdups present)))"

text \<open>
  \<^verbatim>\<open>unstack(fill_value=v)\<close> of a series keyed by pairs: the first components that occur,
  in ascending order, become the index, the second components that occur, in ascending
  order, the columns; a pair that does not occur gets \<open>v\<close>.
\<close>

definition unstack :: "rat \<Rightarrow> (('i::linorder \<times> 'c::linorder) \<times> int) list \<Rightarrow> ('i list \<times> ('c \<times> rat list) list)" where
  "unstack fill_value s =
     (let idx = sort (remdups (map (\<lambda>e. fst (fst e)) s));
          cols = sort (remdups (map (\<lambda>e. snd (fst e)) s))
      in (idx, map (\<lambda>c. (c, map (\<lambda>i. case map_of s (i, c) of
                                          Some n \<Rightarrow> of_int n | None \<Rightarrow> fill_value) idx)) cols))"

section \<open>Counts per period (lines 93-108)\<close>

definition cles :: "string \<Rightarrow> vente list \<Rightarrow> (int \<times> bool) option list" where
  "cles regroupement df =
     map (\<lambda>v. map_option (\<lambda>p. (p, est_francophone (pays v))) (to_period regroupement (date v))) df"

definition ventes_par_periode :: "string \<Rightarrow> vente list \<Rightarrow> erreur + string frame" where
  "ventes_par_periode regroupement df =
     (let (idx, cols) = unstack 0 (groupby_size (cles regroupement df));
          t0 = \<lparr>index = idx, colonnes = cols\<rparr>
      in bind_err (set_columns [''Autres pays'', ''Pays francophones''] t0) (\<lambda>t1.
         let t2 = (if ''Autres pays'' \<notin> set (noms t1)
                   then setcol ''Autres pays'' (replicate (length (index t1)) 0) t1 else t1);
             t3 = (if ''Pays francophones'' \<notin> set (noms t2)
                   then setcol ''Pays francophones'' (replicate (length (index t2)) 0) t2 else t2)
         in bind_err (getcol ''Autres pays'' t3) (\<lambda>a.
            bind_err (getcol ''Pays francophones'' t3) (\<lambda>f.
            Inr (setcol ''Total'' (map2 (+) a f) t3)))))"

section \<open>Binary64 arithmetic\<close>

text \<open>
  Dividing two columns of integers gives pandas a column of \<^verbatim>\<open>float64\<close>. A binary64
  value is modelled by the rational it denotes, and an operation by the exact result rounded
  to the nearest value with a 53-bit significand, ties to the even significand. Overflow
  and subnormal values are not modelled: the quotients of this program lie between
  \<open>2\<^sup>-\<^sup>6\<^sup>3\<close> and 1 and its products between \<open>2\<^sup>-\<^sup>6\<^sup>3\<close> and 100, or are zero.
\<close>

text \<open>The number of binary digits of a positive integer.\<close>

function bitlen :: "int \<Rightarrow> int" where
  "bitlen n = (if n \<le> 0 then 0 else 1 + bitlen (n div 2))"
  by pat_completeness auto
termination
  by (relation "measure nat") auto

declare bitlen.simps [simp del]

definition pow2 :: "int \<Rightarrow> rat" where
  "pow2 k = (if 0 \<le> k then 2 ^ nat k else 1 / 2 ^ nat (- k))"

text \<open>The exponent \<open>e\<close> of a nonzero \<open>x\<close>: \<open>2\<^sup>e \<le> |x| < 2\<^sup>e\<^sup>+\<^sup>1\<close>.\<close>

definition exposant :: "rat \<Rightarrow> int" where
  "exposant x =
     (let (p, q) = quotient_of \<bar>x\<bar>;
          k = bitlen p - bitlen q
      in if pow2 k \<le> \<bar>x\<bar> then k else k - 1)"

definition round_half_even :: "rat \<Rightarrow> int" where
  "round_half_even q =
     (let n = \<lfloor>q\<rfloor>; r = q - of_int n
      in if r < 1 / 2 then n else if 1 / 2 < r then n + 1 else if even n then n else n + 1)"

definition fl64 :: "rat \<Rightarrow> rat" where
  "fl64 x =
     (if x = 0 then 0
      else let u = pow2 (exposant x - 52) in of_int (round_half_even (x / u)) * u)"

text \<open>
  \<^verbatim>\<open>a / b\<close> on two columns of integers: both operands are converted to
  \<^verbatim>\<open>float64\<close>, then divided.
\<close>

definition truediv :: "rat \<Rightarrow> rat \<Rightarrow> rat" where
  "truediv a b = fl64 (fl64 a / fl64 b)"

text \<open>
  \<^verbatim>\<open>a * b\<close> on two binary64 values. It is used with a quotient and the scalar 100,
  which is a binary64 value as it stands.
\<close>

definition fmul :: "rat \<Rightarrow> rat \<Rightarrow> rat" where
  "fmul a b = fl64 (a * b)"

section \<open>Percentages (lines 110-124)\<close>

text \<open>
  The percentages are written into a copy of the table of counts, and each right-hand
  side reads the table of counts again. Whether the counts survive depends on the copy
  being a different object, so the two tables live in a store of objects: \<open>objets\<close> gives
  the table held at a reference and \<open>suivant\<close> is the next free reference.
\<close>

record tas =
  suivant :: nat
  objets :: "nat \<Rightarrow> string frame"

definition nouveau :: "string frame \<Rightarrow> tas \<Rightarrow> nat \<times> tas" where
  "nouveau f s = (suivant s, s\<lparr>suivant := Suc (suivant s), objets := (objets s)(suivant s := f)\<rparr>)"

text \<open>\<^verbatim>\<open>.copy()\<close>: a new object with the same contents.\<close>

definition copy :: "nat \<Rightarrow> tas \<Rightarrow> nat \<times> tas" where
  "copy r s = nouveau (objets s r) s"

text \<open>\<^verbatim>\<open>f.loc[mask, c]\<close>: the entries of column \<open>c\<close> on the rows where the mask holds.\<close>

definition selection :: "bool list \<Rightarrow> 'a list \<Rightarrow> 'a list" where
  "selection msk xs = map snd (filter fst (zip msk xs))"

definition loc_get :: "bool list \<Rightarrow> string \<Rightarrow> string frame \<Rightarrow> erreur + rat list" where
  "loc_get msk c f = bind_err (getcol c f) (\<lambda>v. Inr (selection msk v))"

text \<open>
  \<^verbatim>\<open>f.loc[mask, c] = vals\<close>: on the rows where the mask holds, the entries of column \<open>c\<close>
  are replaced by the values, in order; the other rows keep theirs. The labels used below
  are labels of the table.
\<close>

fun affecter :: "bool list \<Rightarrow> rat list \<Rightarrow> rat list \<Rightarrow> rat list" where
  "affecter (True # ms) (old # olds) (v # vs) = v # affecter ms olds vs"
| "affecter (False # ms) (old # olds) vs = old # affecter ms olds vs"
| "affecter ms olds vs = olds"

definition loc_set :: "bool list \<Rightarrow> string \<Rightarrow> rat list \<Rightarrow> string frame \<Rightarrow> string frame" where
  "loc_set msk c vals f =
     f\<lparr>colonnes := map (\<lambda>(n, old). if n = c then (n, affecter msk old vals) else (n, old))
                        (colonnes f)\<rparr>"

text \<open>\<^verbatim>\<open>f.loc[mask, c] = v\<close> with one number for all the rows of the mask.\<close>

definition loc_set_scalar :: "bool list \<Rightarrow> string \<Rightarrow> rat \<Rightarrow> string frame \<Rightarrow> string frame" where
  "loc_set_scalar msk c v f = loc_set msk c (replicate (length (selection msk msk)) v) f"

text \<open>\<^verbatim>\<open>f.loc[mask, :] = v\<close>: every column, on the rows of the mask.\<close>

definition loc_set_rows :: "bool list \<Rightarrow> rat \<Rightarrow> string frame \<Rightarrow> string frame" where
  "loc_set_rows msk v f =
     f\<lparr>colonnes := map (\<lambda>(n, old). (n, affecter msk old (replicate (length (selection msk msk)) v)))
                        (colonnes f)\<rparr>"

definition modifier :: "nat \<Rightarrow> (string frame \<Rightarrow> string frame) \<Rightarrow> tas \<Rightarrow> tas" where
  "modifier r g s = s\<lparr>objets := (objets s)(r := g (objets s r))\<rparr>"

text \<open>
  The share of column \<open>c\<close> in the total, on the rows of the mask, read from the object at
  \<open>r\<close>: \<^verbatim>\<open>t.loc[mask, c] / t.loc[mask, 'Total'] * 100\<close>.
\<close>

definition part :: "bool list \<Rightarrow> string \<Rightarrow> string frame \<Rightarrow> erreur + rat list" where
  "part msk c t =
     bind_err (loc_get msk c t) (\<lambda>n.
     bind_err (loc_get msk ''Total'' t) (\<lambda>d.
     Inr (map (\<lambda>q. fmul q 100) (map2 truediv n d))))"

text \<open>
  Lines 111-124 on the store: \<open>vpp\<close> is the reference of \<^verbatim>\<open>ventes_par_periode\<close>; the
  result is the reference of \<^verbatim>\<open>ventes_pourcentages\<close> and the store after the writes.
\<close>

definition ventes_pourcentages :: "nat \<Rightarrow> tas \<Rightarrow> erreur + (nat \<times> tas)" where
  "ventes_pourcentages vpp s0 =
     (let (vpct, s1) = copy vpp s0
      in bind_err (getcol ''Total'' (objets s1 vpp)) (\<lambda>tot.
         let mask_non_zero = map (\<lambda>t. 0 < t) tot
         in bind_err (part mask_non_zero ''Pays francophones'' (objets s1 vpp)) (\<lambda>pf.
            let s2 = modifier vpct (loc_set mask_non_zero ''Pays francophones'' pf) s1
            in bind_err (part mask_non_zero ''Autres pays'' (objets s2 vpp)) (\<lambda>pa.
               let s3 = modifier vpct (loc_set mask_non_zero ''Autres pays'' pa) s2;
                   s4 = modifier vpct (loc_set_scalar mask_non_zero ''Total'' 100) s3;
                   s5 = modifier vpct (loc_set_rows (map Not mask_non_zero) 0) s4
               in Inr (vpct, s5)))))"

section \<open>The main routine\<close>

text \<open>
  The routine ends at the first check that fails, in the order of the source. Line 73
  applies the \<^verbatim>\<open>.str\<close> accessor to the country column, outside any \<^verbatim>\<open>try\<close>: when no
  cell of the column read from the file is a text, it raises \<^verbatim>\<open>AttributeError\<close>. The
  filter of line 59 keeps the type of the column, so the cells of all the rows of the file
  decide. The chart and the printed summary (lines 126-225) read the two tables and change
  neither; they are left out. \<open>read_csv\<close> stands for the files on disk.
\<close>

definition tas_vide :: tas where
  "tas_vide = \<lparr>suivant = 0, objets = (\<lambda>r. \<lparr>index = [], colonnes = []\<rparr>)\<rparr>"

definition analyser_ventes_francophones ::
  "(string \<Rightarrow> lecture) \<Rightarrow> string \<Rightarrow> string \<Rightarrow> string \<Rightarrow> string \<Rightarrow> datetime
     \<Rightarrow> erreur + (string frame \<times> string frame)" where
  "analyser_ventes_francophones read_csv fichier_csv colonne_pays colonne_date regroupement date_debut =
     (case read_csv fichier_csv of
        FileNotFound \<Rightarrow> Inl (FichierNonTrouve fichier_csv)
      | EchecLecture \<Rightarrow> Inl ErreurChargement
      | Charge df \<Rightarrow>
          if colonne_pays \<notin> set (columns df) then Inl (ColonneAbsente colonne_pays (columns df))
          else if colonne_date \<notin> set (columns df) then Inl (ColonneAbsente colonne_date (columns df))
          else if Illisible \<in> set (map date (lignes df)) then Inl ErreurConversionDates
          else if date_debut = Illisible then Inl ErreurFiltrageDate
          else let df1 = filtrage date_debut (lignes df)
               in if length df1 = 0 then Inl AucuneDonnee
                  else if list_all (\<lambda>v. pays v = None) (lignes df) then Inl AttributeError
                  else if regroupement \<notin> set (map fst regroupements_labels)
                  then Inl (RegroupementNonSupporte regroupement)
                  else bind_err (ventes_par_periode regroupement df1) (\<lambda>t.
                       let (vpp, s0) = nouveau t tas_vide
                       in bind_err (ventes_pourcentages vpp s0) (\<lambda>(vpct, s).
                          Inr (objets s vpp, objets s vpct))))"

section \<open>The routine for the four groupings (lines 229-258)\<close>

text \<open>
  The dictionary is gone through in the order of its entries. Each call of the main
  routine is wrapped in \<^verbatim>\<open>try\<close>: whatever it raises is printed and the loop goes on.
  The routine returns nothing; the model gives the outcomes of the calls it made, in
  order, each with the grouping code it was made with.
\<close>

definition regroupements :: "(string \<times> string) list" where
  "regroupements =
     [(''W'', ''Semaine''), (''M'', ''Mois''), (''Q'', ''Trimestre''), (''Y'', ''Annee'')]"

definition analyser_multiple_regroupements ::
  "(string \<Rightarrow> lecture) \<Rightarrow> string \<Rightarrow> string \<Rightarrow> string \<Rightarrow> datetime
     \<Rightarrow> (string \<times> (erreur + (string frame \<times> string frame))) list" where
  "analyser_multiple_regroupements read_csv fichier_csv colonne_pays colonne_date date_debut =
     map (\<lambda>(code, nom).
            (code, analyser_ventes_francophones read_csv fichier_csv colonne_pays colonne_date code date_debut))
         regroupements"

section \<open>Notions used in the statements\<close>

text \<open>
  The keys (period, class) of the rows that have a period, in the order of the rows.
\<close>

definition presents :: "string \<Rightarrow> vente list \<Rightarrow> (int \<times> bool) list" where
  "presents g df = List.map_filter (\<lambda>k. k) (cles g df)"

text \<open>
  The table of counts that a list of keys stands for: one row per period that occurs, in
  ascending order, with the number of keys of each class and their sum.
\<close>

definition table_comptes :: "(int \<times> bool) list \<Rightarrow> string frame" where
  "table_comptes pr =
     (let idx = sorted_list_of_set (fst ` set pr)
      in \<lparr>index = idx,
          colonnes =
            [(''Autres pays'', map (\<lambda>i. of_nat (count_list pr (i, False))) idx),
             (''Pays francophones'', map (\<lambda>i. of_nat (count_list pr (i, True))) idx),
             (''Total'', map (\<lambda>i. of_nat (count_list pr (i, False)) + of_nat (count_list pr (i, True))) idx)]\<rparr>)"

text \<open>The share of a count \<open>x\<close> in a total \<open>t\<close> as lines 113-124 compute it.\<close>

definition pct :: "rat \<Rightarrow> rat \<Rightarrow> rat" where
  "pct x t = (if 0 < t then fmul (truediv x t) 100 else 0)"

definition table_pourcentages :: "int list \<Rightarrow> rat list \<Rightarrow> rat list \<Rightarrow> rat list \<Rightarrow> string frame" where
  "table_pourcentages idx a f n =
     \<lparr>index = idx,
      colonnes = [(''Autres pays'', map2 pct a n), (''Pays francophones'', map2 pct f n),
                  (''Total'', map (\<lambda>t. if 0 < t then 100 else 0) n)]\<rparr>"

text \<open>The table of percentages that goes with the table of counts of a list of keys.\<close>

definition pourcentages_de :: "(int \<times> bool) list \<Rightarrow> string frame" where
  "pourcentages_de pr =
     (let idx = sorted_list_of_set (fst ` set pr)
      in table_pourcentages idx
           (map (\<lambda>i. of_nat (count_list pr (i, False))) idx)
           (map (\<lambda>i. of_nat (count_list pr (i, True))) idx)
           (map (\<lambda>i. of_nat (count_list pr (i, False)) + of_nat (count_list pr (i, True))) idx))"


text \<open>
  Sample inputs. \<open>ventes_exemple\<close> is the scenario of the specification: sales on
  2020-01-15 in \<^verbatim>\<open>FR\<close>, on 2020-01-20 in \<^verbatim>\<open>us\<close> and on 2020-02-01 in \<^verbatim>\<open>ca\<close>.
  \<open>ventes_francophones\<close> has sales in francophone countries only, \<open>ventes_autres\<close>
  sales in other countries only, \<open>ventes_sans_pays\<close> no country in any row, and
  \<open>ventes_permutees\<close> the rows of \<open>ventes_exemple\<close> in another order. The timestamps are
  those of midnight; \<open>t_2020_01_01\<close> and \<open>t_2021_01_01\<close> are start dates.
\<close>

definition t_2020_01_01 :: int where "t_2020_01_01 = 1577836800000000000"
definition t_2020_01_15 :: int where "t_2020_01_15 = 1579046400000000000"
definition t_2020_01_20 :: int where "t_2020_01_20 = 1579478400000000000"
definition t_2020_02_01 :: int where "t_2020_02_01 = 1580515200000000000"

definition ventes_exemple :: dataframe where
  "ventes_exemple =
     \<lparr>columns = [''Sale Date'', ''Customer country code''],
      lignes = [\<lparr>pays = Some ''FR'', date = Timestamp t_2020_01_15\<rparr>,
                \<lparr>pays = Some ''us'', date = Timestamp t_2020_01_20\<rparr>,
                \<lparr>pays = Some ''ca'', date = Timestamp t_2020_02_01\<rparr>]\<rparr>"

definition ventes_francophones :: dataframe where
  "ventes_francophones =
     \<lparr>columns = [''Sale Date'', ''Customer country code''],
      lignes = [\<lparr>pays = Some ''FR'', date = Timestamp t_2020_01_15\<rparr>,
                \<lparr>pays = Some ''be'', date = Timestamp t_2020_02_01\<rparr>]\<rparr>"

definition ventes_permutees :: dataframe where
  "ventes_permutees =
     \<lparr>columns = [''Sale Date'', ''Customer country code''],
      lignes = [\<lparr>pays = Some ''ca'', date = Timestamp t_2020_02_01\<rparr>,
                \<lparr>pays = Some ''FR'', date = Timestamp t_2020_01_15\<rparr>,
                \<lparr>pays = Some ''us'', date = Timestamp t_2020_01_20\<rparr>]\<rparr>"

definition ventes_autres :: dataframe where
  "ventes_autres =
     \<lparr>columns = [''Sale Date'', ''Customer country code''],
      lignes = [\<lparr>pays = Some ''us'', date = Timestamp t_2020_01_15\<rparr>,
                \<lparr>pays = Some ''DE'', date = Timestamp t_2020_01_20\<rparr>]\<rparr>"

definition ventes_sans_pays :: dataframe where
  "ventes_sans_pays =
     \<lparr>columns = [''Sale Date'', ''Customer country code''],
      lignes = [\<lparr>pays = None, date = Timestamp t_2020_01_15\<rparr>,
                \<lparr>pays = None, date = Timestamp t_2020_01_20\<rparr>]\<rparr>"

definition disque :: "string \<Rightarrow> lecture" where
  "disque fichier =
     (if fichier = ''ventesdolibarr.csv'' then Charge ventes_exemple
      else if fichier = ''francophones.csv'' then Charge ventes_francophones
      else if fichier = ''permutees.csv'' then Charge ventes_permutees
      else if fichier = ''autres.csv'' then Charge ventes_autres
      else if fichier = ''sanspays.csv'' then Charge ventes_sans_pays
      else FileNotFound)"

section \<open>Classification\<close>

lemma lower_char_idem: "lower_char (lower_char c) = lower_char c"
proof -
  have b: "(of_char c :: nat) < 256" by simp
  show ?thesis
    using b by (auto simp add: lower_char_def Let_def)
qed

lemma isspace_lower_char: "isspace (lower_char c) = isspace c"
proof -
  have b: "(of_char c :: nat) < 256" by simp
  show ?thesis
    using b by (auto simp add: lower_char_def isspace_def Let_def)
qed

lemma lower_idem: "lower (lower s) = lower s"
  by (simp add: lower_def lower_char_idem)

lemma strip_spaces:
  assumes "\<forall>c\<in>set s. isspace c"
  shows "strip s = []"
proof -
  from assms have h: "dropWhile isspace s = []" by simp
  show ?thesis unfolding strip_def h by simp
qed

lemma strip_append_spaces:
  assumes a: "\<forall>c\<in>set a. isspace c" and b: "\<forall>c\<in>set b. isspace c"
  shows "strip (a @ s @ b) = strip s"
proof (cases "\<forall>c\<in>set s. isspace c")
  case True
  with a b have "\<forall>c\<in>set (a @ s @ b). isspace c" by auto
  then have "strip (a @ s @ b) = []" by (rule strip_spaces)
  moreover from True have "strip s = []" by (rule strip_spaces)
  ultimately show ?thesis by simp
next
  case False
  then obtain x where x: "x \<in> set s" "\<not> isspace x" by blast
  have "dropWhile isspace (a @ s @ b) = dropWhile isspace (s @ b)"
    by (rule dropWhile_append2) (use a in blast)
  also have "\<dots> = dropWhile isspace s @ b"
    using x by (rule dropWhile_append1)
  finally have 1: "rev (dropWhile isspace (a @ s @ b)) = rev b @ rev (dropWhile isspace s)"
    by simp
  have 2: "dropWhile isspace (rev b @ rev (dropWhile isspace s))
      = dropWhile isspace (rev (dropWhile isspace s))"
    by (rule dropWhile_append2) (use b in simp)
  show ?thesis
    unfolding strip_def 1 2 ..
qed

lemma est_francophone_spaces:
  assumes a: "\<forall>c\<in>set a. isspace c" and b: "\<forall>c\<in>set b. isspace c"
  shows "est_francophone (Some (a @ s @ b)) = est_francophone (Some s)"
proof -
  have "\<forall>c\<in>set (lower a). isspace c" "\<forall>c\<in>set (lower b). isspace c"
    using a b by (auto simp add: lower_def isspace_lower_char)
  then have "strip (lower a @ lower s @ lower b) = strip (lower s)"
    by (rule strip_append_spaces)
  then show ?thesis
    by (simp add: est_francophone_def normalisation_def isin_def lower_def)
qed

text \<open>
  Claim C6. A country text is classified as francophone exactly when its lowercased,
  stripped form is one of fr, be, ch, nc, ca, lu. Lowercasing it beforehand or putting
  whitespace around it does not change the class; \<^verbatim>\<open>"FR "\<close>, \<^verbatim>\<open>"fr"\<close> and
  \<^verbatim>\<open>" fR"\<close> are francophone; the empty text, a malformed text and a missing value are
  classified as other. The function is total: it has no error result.
\<close>

theorem est_francophone_iff:
  "(\<forall>raw. est_francophone (Some raw)
       = (strip (lower raw) \<in> {''fr'', ''be'', ''ch'', ''nc'', ''ca'', ''lu''}))
   \<and> (\<forall>raw. est_francophone (Some (lower raw)) = est_francophone (Some raw))
   \<and> (\<forall>a b raw. (\<forall>c\<in>set a. isspace c) \<and> (\<forall>c\<in>set b. isspace c)
         \<longrightarrow> est_francophone (Some (a @ raw @ b)) = est_francophone (Some raw))
   \<and> est_francophone (Some ''FR '') \<and> est_francophone (Some ''fr'') \<and> est_francophone (Some '' fR'')
   \<and> \<not> est_francophone (Some '''') \<and> \<not> est_francophone (Some ''f r'') \<and> \<not> est_francophone None"
proof -
  have 1: "\<forall>raw. est_francophone (Some raw)
       = (strip (lower raw) \<in> {''fr'', ''be'', ''ch'', ''nc'', ''ca'', ''lu''})"
    by (simp add: est_francophone_def normalisation_def isin_def pays_francophones_def)
  have 2: "\<forall>raw. est_francophone (Some (lower raw)) = est_francophone (Some raw)"
    by (simp add: est_francophone_def normalisation_def lower_idem)
  have 3: "\<forall>a b raw. (\<forall>c\<in>set a. isspace c) \<and> (\<forall>c\<in>set b. isspace c)
         \<longrightarrow> est_francophone (Some (a @ raw @ b)) = est_francophone (Some raw)"
    using est_francophone_spaces by blast
  have 4: "est_francophone (Some ''FR '')" by code_simp
  have 5: "est_francophone (Some ''fr'')" by code_simp
  have 6: "est_francophone (Some '' fR'')" by code_simp
  have 7: "\<not> est_francophone (Some '''')" by code_simp
  have 8: "\<not> est_francophone (Some ''f r'')" by code_simp
  have 9: "\<not> est_francophone None" by code_simp
  from 1 2 3 4 5 6 7 8 9 show ?thesis by blast
qed

theorem est_francophone_iff_witness:
  "est_francophone (Some (''  '' @ ''Be'' @ '' '')) = est_francophone (Some ''Be'')
   \<and> est_francophone (Some ''Be'')"
proof -
  have s: "(\<forall>c\<in>set ''  ''. isspace c) \<and> (\<forall>c\<in>set '' ''. isspace c)"
    by (simp add: isspace_def)
  have "est_francophone (Some ''Be'')" by code_simp
  with s est_francophone_iff show ?thesis by blast
qed

section \<open>Filter on the start date\<close>

text \<open>
  Claim C7. With a start date that parses, the filter keeps exactly the rows whose
  timestamp is at or after it: the kept rows are a subsequence of the rows, each kept row is
  kept as many times as it occurs, a row dated on the start date is kept and a row dated
  before it is removed.
\<close>

theorem filtrage_keeps:
  "(v \<in> set (filtrage (Timestamp c) df)
      \<longleftrightarrow> v \<in> set df \<and> (\<exists>t. date v = Timestamp t \<and> c \<le> t))
   \<and> subseq (filtrage (Timestamp c) df) df
   \<and> (v \<in> set (filtrage (Timestamp c) df)
        \<longrightarrow> count_list (filtrage (Timestamp c) df) v = count_list df v)
   \<and> (v \<in> set df \<and> date v = Timestamp c \<longrightarrow> v \<in> set (filtrage (Timestamp c) df))
   \<and> (date v = Timestamp t \<and> t < c \<longrightarrow> v \<notin> set (filtrage (Timestamp c) df))"
proof -
  have a: "\<And>w. ge_datetime (date w) (Timestamp c) \<longleftrightarrow> (\<exists>t. date w = Timestamp t \<and> c \<le> t)"
    by (auto simp add: ge_datetime_def split: datetime.splits)
  have 1: "v \<in> set (filtrage (Timestamp c) df)
      \<longleftrightarrow> v \<in> set df \<and> (\<exists>t. date v = Timestamp t \<and> c \<le> t)"
    using a by (auto simp add: filtrage_def)
  have 2: "subseq (filtrage (Timestamp c) df) df"
    by (simp add: filtrage_def)
  have "count_list (filter P df) v = count_list df v" if "P v" for P
    using that by (induction df) auto
  then have 3: "v \<in> set (filtrage (Timestamp c) df)
        \<longrightarrow> count_list (filtrage (Timestamp c) df) v = count_list df v"
    by (simp add: filtrage_def)
  from 1 2 3 show ?thesis by auto
qed

theorem filtrage_keeps_witness:
  "\<lparr>pays = Some ''us'', date = Timestamp t_2020_01_20\<rparr>
      \<in> set (filtrage (Timestamp t_2020_01_20) (lignes ventes_exemple))
   \<and> count_list (filtrage (Timestamp t_2020_01_20) (lignes ventes_exemple))
        \<lparr>pays = Some ''us'', date = Timestamp t_2020_01_20\<rparr> = 1
   \<and> \<lparr>pays = Some ''FR'', date = Timestamp t_2020_01_15\<rparr>
      \<notin> set (filtrage (Timestamp t_2020_01_20) (lignes ventes_exemple))"
  using filtrage_keeps [of "\<lparr>pays = Some ''us'', date = Timestamp t_2020_01_20\<rparr>"
      t_2020_01_20 "lignes ventes_exemple"]
    filtrage_keeps [of "\<lparr>pays = Some ''FR'', date = Timestamp t_2020_01_15\<rparr>"
      t_2020_01_20 "lignes ventes_exemple" t_2020_01_15]
  by (simp add: ventes_exemple_def t_2020_01_20_def t_2020_01_15_def t_2020_02_01_def)

section \<open>The routine for the four groupings\<close>

text \<open>
  Claim C9. \<^verbatim>\<open>analyser_multiple_regroupements\<close> calls the main routine once for each
  of the codes W, M, Q, Y, in this order, each time with the file, the two column names and
  the start date it was given, and does nothing else with the data.
\<close>

theorem analyser_multiple_regroupements_calls:
  "analyser_multiple_regroupements read_csv fichier_csv colonne_pays colonne_date date_debut =
     [(''W'', analyser_ventes_francophones read_csv fichier_csv colonne_pays colonne_date ''W'' date_debut),
      (''M'', analyser_ventes_francophones read_csv fichier_csv colonne_pays colonne_date ''M'' date_debut),
      (''Q'', analyser_ventes_francophones read_csv fichier_csv colonne_pays colonne_date ''Q'' date_debut),
      (''Y'', analyser_ventes_francophones read_csv fichier_csv colonne_pays colonne_date ''Y'' date_debut)]"
  by (simp add: analyser_multiple_regroupements_def regroupements_def)

section \<open>The table of counts in closed form\<close>

lemma sort_remdups_set: "sort (remdups xs) = sorted_list_of_set (set xs)"
  by (simp add: sorted_list_of_set_sort_remdups)

lemma map_fst_groupby_size: "map fst (groupby_size ks) = sorted_list_of_set (set (List.map_filter (\<lambda>k. k) ks))"
  by (simp add: groupby_size_def Let_def comp_def sort_remdups_set)

lemma map_of_groupby_size:
  "map_of (groupby_size ks) k =
     (if k \<in> set (List.map_filter (\<lambda>k. k) ks) then Some (int (count_list (List.map_filter (\<lambda>k. k) ks) k)) else None)"
  by (simp add: groupby_size_def Let_def map_of_map_restrict restrict_map_def)

lemma cell_groupby_size:
  "(case map_of (groupby_size ks) k of Some n \<Rightarrow> of_int n | None \<Rightarrow> (0::rat))
     = of_nat (count_list (List.map_filter (\<lambda>k. k) ks) k)"
  by (simp add: map_of_groupby_size count_list_0_iff)

lemma unstack_groupby_size:
  "unstack 0 (groupby_size ks) =
     (let pr = List.map_filter (\<lambda>k. k) ks; idx = sorted_list_of_set (fst ` set pr)
      in (idx, map (\<lambda>c. (c, map (\<lambda>i. of_nat (count_list pr (i, c))) idx))
                   (sorted_list_of_set (snd ` set pr))))"
proof -
  have a: "map (\<lambda>e. fst (fst e)) (groupby_size ks) = map fst (map fst (groupby_size ks))"
    by simp
  have b: "map (\<lambda>e. snd (fst e)) (groupby_size ks) = map snd (map fst (groupby_size ks))"
    by simp
  show ?thesis
    unfolding unstack_def a b map_fst_groupby_size cell_groupby_size sort_remdups_set
    by (simp add: Let_def)
qed

lemma bool_set_cases:
  "(B :: bool set) = {} \<or> B = {False} \<or> B = {True} \<or> B = {False, True}"
proof -
  have "B = (if False \<in> B then {False} else {}) \<union> (if True \<in> B then {True} else {})"
  proof (rule set_eqI)
    fix x show "x \<in> B \<longleftrightarrow> x \<in> (if False \<in> B then {False} else {}) \<union> (if True \<in> B then {True} else {})"
      by (cases x) simp_all
  qed
  then show ?thesis
    by (cases "False \<in> B"; cases "True \<in> B") auto
qed

lemma ventes_par_periode_closed:
  "ventes_par_periode g df =
     (if snd ` set (presents g df) = {False, True} then Inr (table_comptes (presents g df))
      else Inl (LengthMismatch (card (snd ` set (presents g df))) 2))"
proof -
  let ?pr = "presents g df"
  let ?B = "snd ` set ?pr"
  have u: "unstack 0 (groupby_size (cles g df)) =
     (sorted_list_of_set (fst ` set ?pr),
      map (\<lambda>c. (c, map (\<lambda>i. of_nat (count_list ?pr (i, c))) (sorted_list_of_set (fst ` set ?pr))))
          (sorted_list_of_set ?B))"
    by (simp add: unstack_groupby_size presents_def Let_def)
  consider "?B = {}" | "?B = {False}" | "?B = {True}" | "?B = {False, True}"
    using bool_set_cases [of ?B] by blast
  then show ?thesis
  proof cases
    case 1
    then show ?thesis
      unfolding ventes_par_periode_def u
      by (simp add: set_columns_def bind_err_def)
  next
    case 2
    then show ?thesis
      unfolding ventes_par_periode_def u
      by (simp add: set_columns_def bind_err_def)
  next
    case 3
    then show ?thesis
      unfolding ventes_par_periode_def u
      by (simp add: set_columns_def bind_err_def)
  next
    case 4
    then show ?thesis
      unfolding ventes_par_periode_def u
      by (simp add: set_columns_def bind_err_def noms_def getcol_def setcol_def table_comptes_def
          Let_def map2_map_map)
  qed
qed

section \<open>The table of percentages in closed form\<close>

lemma selection_Cons [simp]:
  "selection (b # m) (x # xs) = (if b then x # selection m xs else selection m xs)"
  by (simp add: selection_def)

lemma selection_Nil [simp]: "selection [] xs = []" "selection m [] = []"
  by (simp_all add: selection_def)

lemma selection_zip:
  "length xs = length ys \<Longrightarrow> zip (selection m xs) (selection m ys) = selection m (zip xs ys)"
proof (induction m arbitrary: xs ys)
  case Nil
  then show ?case by simp
next
  case (Cons b m)
  then show ?case by (cases xs; cases ys) auto
qed

lemma affecter_replicate:
  "length m = length old \<Longrightarrow>
     affecter m old (replicate (length (selection m m)) v) = map2 (\<lambda>b w. if b then v else w) m old"
proof (induction m arbitrary: old)
  case Nil
  then show ?case by simp
next
  case (Cons b m)
  then show ?case by (cases old; cases b) auto
qed

lemma affecter_map_selection:
  "length m = length old \<Longrightarrow> length xs = length old \<Longrightarrow>
     affecter m old (map g (selection m xs)) = map (\<lambda>(b, w, x). if b then g x else w) (zip m (zip old xs))"
proof (induction m arbitrary: old xs)
  case Nil
  then show ?case by simp
next
  case (Cons b m)
  then show ?case by (cases old; cases xs; cases b) auto
qed

lemma colonne_finale:
  assumes "length a = length n"
  shows "affecter (map Not (map (\<lambda>t. 0 < t) n))
           (affecter (map (\<lambda>t. 0 < t) n) a
              (map (\<lambda>(u, t). fmul (truediv u t) 100) (selection (map (\<lambda>t. 0 < t) n) (zip a n))))
           (replicate (length (selection (map Not (map (\<lambda>t. 0 < t) n)) (map Not (map (\<lambda>t. 0 < t) n)))) 0)
         = map2 pct a n"
proof -
  have 1: "affecter (map (\<lambda>t. 0 < t) n) a
              (map (\<lambda>(u, t). fmul (truediv u t) 100) (selection (map (\<lambda>t. 0 < t) n) (zip a n)))
           = map2 pct0 a n" if "pct0 = (\<lambda>x t. if 0 < t then fmul (truediv x t) 100 else x)" for pct0
  proof -
    have "affecter (map (\<lambda>t. 0 < t) n) a
              (map (\<lambda>(u, t). fmul (truediv u t) 100) (selection (map (\<lambda>t. 0 < t) n) (zip a n)))
          = map (\<lambda>(b, w, x). if b then (\<lambda>(u, t). fmul (truediv u t) 100) x else w)
              (zip (map (\<lambda>t. 0 < t) n) (zip a (zip a n)))"
      using assms by (intro affecter_map_selection) simp_all
    also have "\<dots> = map2 pct0 a n"
      using assms unfolding that by (induction a n rule: list_induct2) simp_all
    finally show ?thesis .
  qed
  define pct0 where "pct0 = (\<lambda>x t :: rat. if 0 < t then fmul (truediv x t) 100 else x)"
  have 2: "affecter (map Not (map (\<lambda>t. 0 < t) n)) (map2 pct0 a n)
             (replicate (length (selection (map Not (map (\<lambda>t. 0 < t) n)) (map Not (map (\<lambda>t. 0 < t) n)))) 0)
           = map2 (\<lambda>b w. if b then 0 else w) (map Not (map (\<lambda>t. 0 < t) n)) (map2 pct0 a n)"
    using assms by (intro affecter_replicate) simp
  have 3: "map2 (\<lambda>b w. if b then 0 else w) (map Not (map (\<lambda>t. 0 < t) n)) (map2 pct0 a n) = map2 pct a n"
    using assms unfolding pct0_def by (induction a n rule: list_induct2) (simp_all add: pct_def)
  show ?thesis
    unfolding 1 [OF pct0_def] 2 3 ..
qed

lemma total_final:
  "affecter (map Not (map (\<lambda>t. 0 < t) n))
     (affecter (map (\<lambda>t. 0 < t) n) n (replicate (length (selection (map (\<lambda>t. 0 < t) n) (map (\<lambda>t. 0 < t) n))) 100))
     (replicate (length (selection (map Not (map (\<lambda>t. 0 < t) n)) (map Not (map (\<lambda>t. 0 < t) n)))) 0)
   = map (\<lambda>t. if 0 < t then 100 else 0) (n :: rat list)"
proof -
  have 1: "affecter (map (\<lambda>t. 0 < t) n) n (replicate (length (selection (map (\<lambda>t. 0 < t) n) (map (\<lambda>t. 0 < t) n))) 100)
        = map2 (\<lambda>b w. if b then 100 else w) (map (\<lambda>t. 0 < t) n) n"
    by (intro affecter_replicate) simp
  have 2: "affecter (map Not (map (\<lambda>t. 0 < t) n)) (map2 (\<lambda>b w. if b then 100 else w) (map (\<lambda>t. 0 < t) n) n)
            (replicate (length (selection (map Not (map (\<lambda>t. 0 < t) n)) (map Not (map (\<lambda>t. 0 < t) n)))) 0)
        = map2 (\<lambda>b w. if b then 0 else w) (map Not (map (\<lambda>t. 0 < t) n))
            (map2 (\<lambda>b w. if b then 100 else w) (map (\<lambda>t. 0 < t) n) n)"
    by (intro affecter_replicate) simp
  have 3: "map2 (\<lambda>b w. if b then 0 else w) (map Not (map (\<lambda>t. 0 < t) n))
            (map2 (\<lambda>b w. if b then 100 else w) (map (\<lambda>t. 0 < t) n) n)
        = map (\<lambda>t. if 0 < t then 100 else 0) n"
    by (induction n) simp_all
  show ?thesis
    unfolding 1 2 3 ..
qed

lemma part_run:
  assumes "map_of (colonnes t) c = Some x" "map_of (colonnes t) ''Total'' = Some n"
    and "length x = length n"
  shows "part msk c t = Inr (map (\<lambda>(u, t). fmul (truediv u t) 100) (selection msk (zip x n)))"
  using assms
  by (simp add: part_def loc_get_def getcol_def bind_err_def selection_zip [symmetric] split_def)

lemma ventes_pourcentages_run:
  assumes t: "objets s vpp = \<lparr>index = idx, colonnes = [(''Autres pays'', a), (''Pays francophones'', f), (''Total'', n)]\<rparr>"
    and la: "length a = length n" and lf: "length f = length n" and r: "vpp \<noteq> suivant s"
  shows "ventes_pourcentages vpp s =
           Inr (suivant s, s\<lparr>suivant := Suc (suivant s),
                             objets := (objets s)(suivant s := table_pourcentages idx a f n)\<rparr>)"
proof -
  let ?t = "\<lparr>index = idx, colonnes = [(''Autres pays'', a), (''Pays francophones'', f), (''Total'', n)]\<rparr>"
  let ?m = "map (\<lambda>t. 0 < t) n"
  let ?g = "\<lambda>(u, t). fmul (truediv u t) 100"
  have pf: "part ?m ''Pays francophones'' ?t = Inr (map ?g (selection ?m (zip f n)))"
    using lf by (intro part_run) simp_all
  have pa: "part ?m ''Autres pays'' ?t = Inr (map ?g (selection ?m (zip a n)))"
    using la by (intro part_run) simp_all
  have ca: "affecter (map Not ?m) (affecter ?m a (map ?g (selection ?m (zip a n))))
              (replicate (length (selection (map Not ?m) (map Not ?m))) 0) = map2 pct a n"
    using la by (rule colonne_finale)
  have cf: "affecter (map Not ?m) (affecter ?m f (map ?g (selection ?m (zip f n))))
              (replicate (length (selection (map Not ?m) (map Not ?m))) 0) = map2 pct f n"
    using lf by (rule colonne_finale)
  have cn: "affecter (map Not ?m) (affecter ?m n (replicate (length (selection ?m ?m)) 100))
              (replicate (length (selection (map Not ?m) (map Not ?m))) 0)
            = map (\<lambda>t. if 0 < t then 100 else 0) n"
    by (rule total_final)
  show ?thesis
    using r
    by (simp add: ventes_pourcentages_def copy_def nouveau_def t getcol_def bind_err_def pf pa
        modifier_def loc_set_def loc_set_scalar_def loc_set_rows_def ca cf cn table_pourcentages_def
        Let_def del: map_map)
qed

section \<open>Rounding error of binary64 operations\<close>

lemma pow2_powi: "pow2 k = 2 powi k"
  by (simp add: pow2_def power_int_def inverse_eq_divide power_one_over)

lemma pow2_pos: "0 < pow2 k"
  by (simp add: pow2_powi)

lemma pow2_add: "pow2 (a + b) = pow2 a * pow2 b"
  by (simp add: pow2_powi power_int_add)

lemma pow2_diff: "pow2 (a - b) = pow2 a / pow2 b"
  by (simp add: pow2_powi power_int_diff)

lemma pow2_mono: "a \<le> b \<Longrightarrow> pow2 a \<le> pow2 b"
  by (simp add: pow2_powi power_int_increasing)

lemma pow2_less_cancel: "pow2 a < pow2 b \<Longrightarrow> a < b"
  using pow2_mono [of b a] by (cases "a < b") auto

lemma pow2_nat: "pow2 (int n) = 2 ^ n"
  by (simp add: pow2_def)

lemma bitlen_bounds:
  "0 < n \<Longrightarrow> 1 \<le> bitlen n \<and> 2 ^ nat (bitlen n - 1) \<le> n \<and> n < 2 ^ nat (bitlen n)"
proof (induction n rule: bitlen.induct)
  case (1 n)
  show ?case
  proof (cases "n div 2 = 0")
    case True
    with "1.prems" have n: "n = 1" by presburger
    have "bitlen 1 = 1" by (simp add: bitlen.simps)
    with n show ?thesis by simp
  next
    case False
    with "1.prems" have pos: "0 < n div 2" by presburger
    define b where "b = bitlen (n div 2)"
    from "1.IH" "1.prems" pos have ih: "1 \<le> b" "2 ^ nat (b - 1) \<le> n div 2" "n div 2 < 2 ^ nat b"
      by (auto simp add: b_def)
    have bl: "bitlen n = 1 + b"
      using "1.prems" by (subst bitlen.simps) (simp add: b_def)
    have e1: "nat (1 + b - 1) = Suc (nat (b - 1))" using ih(1) by simp
    have e2: "nat (1 + b) = Suc (nat b)" using ih(1) by simp
    have d: "n = 2 * (n div 2) + n mod 2" "0 \<le> n mod 2" "n mod 2 < 2" by simp_all
    have lo: "(2::int) ^ nat (1 + b - 1) \<le> n"
      unfolding e1 power_Suc using ih(2) d by linarith
    have hi: "n < (2::int) ^ nat (1 + b)"
      unfolding e2 power_Suc using ih(3) d by linarith
    from ih(1) lo hi show ?thesis unfolding bl by simp
  qed
qed

lemma bitlen_pow2:
  assumes "0 < n"
  shows "pow2 (bitlen n - 1) \<le> of_int n" and "of_int n < pow2 (bitlen n)"
proof -
  from bitlen_bounds [OF assms]
  have b: "1 \<le> bitlen n" "2 ^ nat (bitlen n - 1) \<le> n" "n < 2 ^ nat (bitlen n)" by auto
  have "pow2 (bitlen n - 1) = of_int (2 ^ nat (bitlen n - 1))"
    using b(1) by (simp add: pow2_def)
  also have "\<dots> \<le> of_int n" using b(2) by (simp only: of_int_le_iff)
  finally show "pow2 (bitlen n - 1) \<le> of_int n" .
  have "(of_int n :: rat) < of_int (2 ^ nat (bitlen n))" using b(3) by (simp only: of_int_less_iff)
  also have "\<dots> = pow2 (bitlen n)" using b(1) by (simp add: pow2_def)
  finally show "of_int n < pow2 (bitlen n)" .
qed

lemma exposant_bounds:
  assumes "x \<noteq> 0"
  shows "pow2 (exposant x) \<le> \<bar>x\<bar>" and "\<bar>x\<bar> < pow2 (exposant x + 1)"
proof -
  obtain p q where pq: "quotient_of \<bar>x\<bar> = (p, q)" by (cases "quotient_of \<bar>x\<bar>") auto
  have q: "0 < q" using pq by (rule quotient_of_denom_pos)
  have x: "\<bar>x\<bar> = of_int p / of_int q" using pq by (rule quotient_of_div)
  have "0 < \<bar>x\<bar>" using assms by simp
  with x q have p: "0 < p" by (simp add: zero_less_divide_iff)
  define k where "k = bitlen p - bitlen q"
  have qr: "(0::rat) < of_int q" using q by simp
  have lo: "pow2 (k - 1) \<le> \<bar>x\<bar>"
  proof -
    have "pow2 (k - 1) * of_int q \<le> pow2 (k - 1) * pow2 (bitlen q)"
      using bitlen_pow2(2) [OF q] pow2_pos [of "k - 1"] by (simp add: less_imp_le)
    also have "\<dots> = pow2 (bitlen p - 1)"
      by (simp add: pow2_add [symmetric] k_def)
    also have "\<dots> \<le> of_int p" using bitlen_pow2(1) [OF p] .
    finally show ?thesis unfolding x using qr by (simp add: pos_le_divide_eq)
  qed
  have hi: "\<bar>x\<bar> < pow2 (k + 1)"
  proof -
    have "of_int p < pow2 (bitlen p)" using bitlen_pow2(2) [OF p] .
    also have "\<dots> = pow2 (k + 1) * pow2 (bitlen q - 1)"
      by (simp add: pow2_add [symmetric] k_def)
    also have "\<dots> \<le> pow2 (k + 1) * of_int q"
      using bitlen_pow2(1) [OF q] pow2_pos [of "k + 1"] by simp
    finally show ?thesis unfolding x using qr by (simp add: pos_divide_less_eq)
  qed
  have e: "exposant x = (if pow2 k \<le> \<bar>x\<bar> then k else k - 1)"
    by (simp add: exposant_def pq k_def Let_def)
  show "pow2 (exposant x) \<le> \<bar>x\<bar>" using lo by (simp add: e)
  show "\<bar>x\<bar> < pow2 (exposant x + 1)" using hi by (auto simp add: e)
qed

lemma round_half_even_err: "\<bar>of_int (round_half_even q) - q\<bar> \<le> 1 / 2"
proof -
  have "of_int \<lfloor>q\<rfloor> \<le> q" "q < of_int \<lfloor>q\<rfloor> + 1" by linarith+
  then show ?thesis
    by (auto simp add: round_half_even_def Let_def)
qed

lemma round_half_even_of_int: "round_half_even (of_int m) = m"
  by (simp add: round_half_even_def)

lemma fl64_err: "\<bar>fl64 x - x\<bar> \<le> \<bar>x\<bar> / 2 ^ 53"
proof (cases "x = 0")
  case True
  then show ?thesis by (simp add: fl64_def)
next
  case False
  define u where "u = pow2 (exposant x - 52)"
  have u: "0 < u" by (simp add: u_def pow2_pos)
  have "fl64 x - x = (of_int (round_half_even (x / u)) - x / u) * u"
    using False u by (simp add: fl64_def u_def [symmetric] Let_def algebra_simps)
  then have "\<bar>fl64 x - x\<bar> = \<bar>of_int (round_half_even (x / u)) - x / u\<bar> * u"
    using u by (simp add: abs_mult)
  also have "\<dots> \<le> (1 / 2) * u"
    using round_half_even_err [of "x / u"] u by (intro mult_right_mono) simp_all
  also have "\<dots> = pow2 (exposant x) / 2 ^ 53"
  proof -
    have "pow2 52 = 2 ^ 52" by (simp add: pow2_def)
    then have "u = pow2 (exposant x) / 2 ^ 52" by (simp add: u_def pow2_diff)
    then show ?thesis by simp
  qed
  also have "\<dots> \<le> \<bar>x\<bar> / 2 ^ 53"
    using exposant_bounds(1) [OF False] by (simp add: divide_right_mono)
  finally show ?thesis .
qed

lemma fl64_of_int:
  assumes "\<bar>n\<bar> < 2 ^ 53"
  shows "fl64 (of_int n) = of_int n"
proof (cases "n = 0")
  case True
  then show ?thesis by (simp add: fl64_def)
next
  case False
  define x :: rat where "x = of_int n"
  have x0: "x \<noteq> 0" using False by (simp add: x_def)
  define e where "e = exposant x"
  have "pow2 e \<le> \<bar>x\<bar>" unfolding e_def using x0 by (rule exposant_bounds)
  also have "\<bar>x\<bar> < of_int (2 ^ 53)"
    unfolding x_def using assms by (simp only: of_int_abs [symmetric] of_int_less_iff)
  also have "(of_int (2 ^ 53) :: rat) = pow2 53" by (simp add: pow2_def)
  finally have "e < 53" by (rule pow2_less_cancel)
  then have u: "pow2 (e - 52) = 1 / 2 ^ nat (52 - e)"
    by (cases "e = 52") (simp_all add: pow2_def)
  have "x / pow2 (e - 52) = of_int (n * 2 ^ nat (52 - e))"
    by (simp add: u x_def)
  then have "round_half_even (x / pow2 (e - 52)) = n * 2 ^ nat (52 - e)"
    by (simp only: round_half_even_of_int)
  then have "fl64 x = of_int (n * 2 ^ nat (52 - e)) * pow2 (e - 52)"
    using x0 by (simp add: fl64_def e_def Let_def)
  also have "\<dots> = x" by (simp add: u x_def)
  finally show ?thesis by (simp add: x_def)
qed

lemma truediv_err:
  assumes "0 \<le> a" "0 < b" "b < 2 ^ 53" "a < 2 ^ 53"
  shows "\<bar>truediv (of_int a) (of_int b) - of_int a / of_int b\<bar> \<le> (of_int a / of_int b) / 2 ^ 53"
proof -
  have "fl64 (of_int a) = of_int a" "fl64 (of_int b) = of_int b"
    using assms by (simp_all add: fl64_of_int)
  then have "truediv (of_int a) (of_int b) = fl64 (of_int a / of_int b)"
    by (simp add: truediv_def)
  moreover have "(0::rat) \<le> of_int a / of_int b" using assms by simp
  ultimately show ?thesis
    using fl64_err [of "of_int a / of_int b"] by simp
qed

lemma pct_sum_bound:
  assumes "0 \<le> nf" "0 \<le> na" "0 < nf + na" "nf + na < 2 ^ 53"
  shows "\<bar>fmul (truediv (of_int nf) (of_int (nf + na))) 100
          + fmul (truediv (of_int na) (of_int (nf + na))) 100 - 100\<bar> \<le> 201 / 2 ^ 53"
proof -
  define x :: rat where "x = of_int nf / of_int (nf + na)"
  define y :: rat where "y = of_int na / of_int (nf + na)"
  define a where "a = truediv (of_int nf) (of_int (nf + na))"
  define b where "b = truediv (of_int na) (of_int (nf + na))"
  define p where "p = fmul a 100"
  define q where "q = fmul b 100"
  have xy: "x + y = 1" "0 \<le> x" "0 \<le> y"
    using assms by (simp_all add: x_def y_def add_divide_distrib [symmetric])
  have ea: "\<bar>a - x\<bar> \<le> x / 2 ^ 53"
    unfolding a_def x_def using assms by (intro truediv_err) simp_all
  have eb: "\<bar>b - y\<bar> \<le> y / 2 ^ 53"
    unfolding b_def y_def using assms by (intro truediv_err) simp_all
  have p53: "(2::rat) ^ 53 = 9007199254740992" by simp
  note ea' = ea [unfolded p53] and eb' = eb [unfolded p53]
  have a0: "0 \<le> a" using ea' xy(2) by linarith
  have b0: "0 \<le> b" using eb' xy(3) by linarith
  have ep: "\<bar>p - a * 100\<bar> \<le> (a * 100) / 2 ^ 53"
    using fl64_err [of "a * 100"] a0 by (simp add: p_def fmul_def)
  have eq: "\<bar>q - b * 100\<bar> \<le> (b * 100) / 2 ^ 53"
    using fl64_err [of "b * 100"] b0 by (simp add: q_def fmul_def)
  note ep' = ep [unfolded p53] and eq' = eq [unfolded p53]
  have "\<bar>p + q - 100\<bar> \<le> 201 / 9007199254740992"
    using ea' eb' ep' eq' xy a0 b0 by linarith
  then show ?thesis by (simp add: p_def q_def a_def b_def)
qed

section \<open>The main routine in closed form\<close>

lemma pourcentages_run:
  "(let (vpp, s0) = nouveau (table_comptes pr) tas_vide
    in bind_err (ventes_pourcentages vpp s0) (\<lambda>(vpct, s). Inr (objets s vpp, objets s vpct)))
   = Inr (table_comptes pr, pourcentages_de pr)"
proof -
  define idx where "idx = sorted_list_of_set (fst ` set pr)"
  define a :: "rat list" where "a = map (\<lambda>i. of_nat (count_list pr (i, False))) idx"
  define f :: "rat list" where "f = map (\<lambda>i. of_nat (count_list pr (i, True))) idx"
  define n :: "rat list" where
    "n = map (\<lambda>i. of_nat (count_list pr (i, False)) + of_nat (count_list pr (i, True))) idx"
  define s0 where "s0 = snd (nouveau (table_comptes pr) tas_vide)"
  have t: "table_comptes pr = \<lparr>index = idx, colonnes = [(''Autres pays'', a), (''Pays francophones'', f), (''Total'', n)]\<rparr>"
    by (simp add: table_comptes_def idx_def a_def f_def n_def Let_def)
  have p: "pourcentages_de pr = table_pourcentages idx a f n"
    by (simp add: pourcentages_de_def idx_def a_def f_def n_def Let_def)
  have nv: "nouveau (table_comptes pr) tas_vide = (0, s0)"
    by (simp add: s0_def nouveau_def tas_vide_def)
  have s0: "objets s0 0 = table_comptes pr" "suivant s0 = Suc 0"
    by (simp_all add: s0_def nouveau_def tas_vide_def)
  have "ventes_pourcentages 0 s0 =
           Inr (suivant s0, s0\<lparr>suivant := Suc (suivant s0),
                             objets := (objets s0)(suivant s0 := table_pourcentages idx a f n)\<rparr>)"
    by (rule ventes_pourcentages_run) (simp_all add: s0 t a_def f_def n_def)
  then show ?thesis
    by (simp add: nv bind_err_def s0 p)
qed

lemma analyser_Charge:
  assumes "read_csv fichier_csv = Charge df"
  shows "analyser_ventes_francophones read_csv fichier_csv colonne_pays colonne_date regroupement date_debut =
     (if colonne_pays \<notin> set (columns df) then Inl (ColonneAbsente colonne_pays (columns df))
      else if colonne_date \<notin> set (columns df) then Inl (ColonneAbsente colonne_date (columns df))
      else if Illisible \<in> date ` set (lignes df) then Inl ErreurConversionDates
      else if date_debut = Illisible then Inl ErreurFiltrageDate
      else if filtrage date_debut (lignes df) = [] then Inl AucuneDonnee
      else if (\<forall>v\<in>set (lignes df). pays v = None) then Inl AttributeError
      else if regroupement \<notin> {''W'', ''M'', ''Q'', ''Y''} then Inl (RegroupementNonSupporte regroupement)
      else if snd ` set (presents regroupement (filtrage date_debut (lignes df))) \<noteq> {False, True}
      then Inl (LengthMismatch (card (snd ` set (presents regroupement (filtrage date_debut (lignes df))))) 2)
      else Inr (table_comptes (presents regroupement (filtrage date_debut (lignes df))),
                pourcentages_de (presents regroupement (filtrage date_debut (lignes df)))))"
proof -
  let ?pr = "presents regroupement (filtrage date_debut (lignes df))"
  have ok: "bind_err (Inr (table_comptes ?pr))
       (\<lambda>t. case nouveau t tas_vide of (vpp, s0) \<Rightarrow>
              bind_err (ventes_pourcentages vpp s0) (\<lambda>(vpct, s). Inr (objets s vpp, objets s vpct)))
       = Inr (table_comptes ?pr, pourcentages_de ?pr)"
    using pourcentages_run [of ?pr] by (simp add: bind_err_def Let_def)
  have ko: "bind_err (Inl e) k = Inl e" for e :: erreur and k :: "string frame \<Rightarrow> erreur + string frame \<times> string frame"
    by (simp add: bind_err_def)
  show ?thesis
    unfolding analyser_ventes_francophones_def assms ventes_par_periode_closed
    by (simp add: regroupements_labels_def Let_def ok ko list_all_iff del: insert_iff)
qed

lemma ventes_pourcentages_frame:
  assumes "ventes_pourcentages vpp s = Inr (vpct, s')"
  shows "vpct = suivant s \<and> (\<forall>r. r \<noteq> suivant s \<longrightarrow> objets s' r = objets s r)"
  using assms
  by (auto simp add: ventes_pourcentages_def copy_def nouveau_def modifier_def bind_err_def Let_def
      split: sum.splits)

lemma analyser_Inr_D:
  assumes "analyser_ventes_francophones read_csv fichier_csv colonne_pays colonne_date regroupement date_debut = Inr (t, p)"
  obtains df where "read_csv fichier_csv = Charge df"
    and "colonne_pays \<in> set (columns df)" and "colonne_date \<in> set (columns df)"
    and "Illisible \<notin> date ` set (lignes df)" and "date_debut \<noteq> Illisible"
    and "filtrage date_debut (lignes df) \<noteq> []"
    and "regroupement \<in> {''W'', ''M'', ''Q'', ''Y''}"
    and "snd ` set (presents regroupement (filtrage date_debut (lignes df))) = {False, True}"
    and "t = table_comptes (presents regroupement (filtrage date_debut (lignes df)))"
    and "p = pourcentages_de (presents regroupement (filtrage date_debut (lignes df)))"
    and "\<exists>v\<in>set (lignes df). pays v \<noteq> None"
proof (cases "read_csv fichier_csv")
  case FileNotFound
  with assms show ?thesis by (simp add: analyser_ventes_francophones_def)
next
  case EchecLecture
  with assms show ?thesis by (simp add: analyser_ventes_francophones_def)
next
  case (Charge df)
  from assms [unfolded analyser_Charge [of read_csv fichier_csv df, OF Charge]] that [OF Charge] show ?thesis
    by (simp split: if_splits)
qed

lemma presents_Nil [simp]: "presents g [] = []"
  by (simp add: presents_def cles_def)

lemma presents_Cons:
  "presents g (v # vs) =
     (case to_period g (date v) of None \<Rightarrow> presents g vs
      | Some q \<Rightarrow> (q, est_francophone (pays v)) # presents g vs)"
  by (simp add: presents_def cles_def split: option.split)

lemma to_period_filtrage:
  "v \<in> set (filtrage date_debut df) \<Longrightarrow> \<exists>q. to_period g (date v) = Some q"
  by (auto simp add: filtrage_def ge_datetime_def to_period_def Let_def split_def split: datetime.splits)

lemma presents_map:
  "\<forall>v\<in>set df. \<exists>q. to_period g (date v) = Some q \<Longrightarrow>
     presents g df = map (\<lambda>v. (the (to_period g (date v)), est_francophone (pays v))) df"
proof (induction df)
  case Nil
  then show ?case by simp
next
  case (Cons v df)
  from Cons.prems obtain q where q: "to_period g (date v) = Some q" by auto
  from Cons have "presents g df = map (\<lambda>v. (the (to_period g (date v)), est_francophone (pays v))) df"
    by simp
  with q show ?case by (simp add: presents_Cons)
qed

lemma length_presents:
  "\<forall>v\<in>set df. \<exists>q. to_period g (date v) = Some q \<Longrightarrow> length (presents g df) = length df"
  by (simp add: presents_map)

lemma snd_presents:
  "\<forall>v\<in>set df. \<exists>q. to_period g (date v) = Some q \<Longrightarrow>
     snd ` set (presents g df) = (\<lambda>v. est_francophone (pays v)) ` set df"
  by (simp add: presents_map image_comp comp_def)

lemma fst_presents:
  "fst ` set (presents g df) = {q. \<exists>v\<in>set df. to_period g (date v) = Some q}"
  by (induction df) (auto simp add: presents_Cons split: option.splits)

lemma count_fst:
  "count_list (map fst xs) i = count_list xs (i, False) + count_list xs (i, True)"
proof (induction xs)
  case Nil
  then show ?case by simp
next
  case (Cons x xs)
  then show ?case by (cases x; cases "snd x") auto
qed

lemma count_presents:
  "count_list (map fst (presents g df)) q = length (filter (\<lambda>v. to_period g (date v) = Some q) df)"
  by (induction df) (auto simp add: presents_Cons split: option.splits)

lemma sum_total:
  "sum_list (map (\<lambda>i. of_nat (count_list pr (i, False)) + of_nat (count_list pr (i, True)))
             (sorted_list_of_set (fst ` set pr))) = (of_nat (length pr) :: rat)"
proof -
  have "sum_list (map (\<lambda>i. of_nat (count_list pr (i, False)) + of_nat (count_list pr (i, True)))
             (sorted_list_of_set (fst ` set pr)))
        = sum_list (map (\<lambda>i. (of_nat (count_list (map fst pr) i) :: rat)) (sorted_list_of_set (fst ` set pr)))"
    by (simp add: count_fst)
  also have "\<dots> = sum (\<lambda>i. of_nat (count_list (map fst pr) i)) (set (sorted_list_of_set (fst ` set pr)))"
    by (rule sum_list_distinct_conv_sum_set) simp
  also have "\<dots> = of_nat (sum (count_list (map fst pr)) (set (map fst pr)))"
    by simp
  also have "sum (count_list (map fst pr)) (set (map fst pr)) = length (map fst pr)"
    by (rule sum_count_set) simp_all
  finally show ?thesis by simp
qed

lemma table_comptes_mset:
  assumes "mset pr = mset pr'"
  shows "table_comptes pr = table_comptes pr'" and "pourcentages_de pr = pourcentages_de pr'"
proof -
  from assms have s: "set pr = set pr'" by (rule mset_eq_setD)
  have "count_list pr k = count_list pr' k" for k
    using assms by (metis count_mset)
  then have c: "count_list pr = count_list pr'" by (rule ext)
  show "table_comptes pr = table_comptes pr'" by (simp add: table_comptes_def s c)
  show "pourcentages_de pr = pourcentages_de pr'" by (simp add: pourcentages_de_def s c)
qed

lemma mset_presents:
  "mset (presents g df) =
     image_mset (\<lambda>k. the k) (filter_mset (\<lambda>k. k \<noteq> None)
       (image_mset (\<lambda>v. map_option (\<lambda>q. (q, est_francophone (pays v))) (to_period g (date v))) (mset df)))"
  by (simp add: presents_def cles_def map_filter_def comp_def)

section \<open>Sample runs\<close>

lemma exemple_M:
  "analyser_ventes_francophones disque ''ventesdolibarr.csv'' ''Customer country code'' ''Sale Date''
      ''M'' (Timestamp t_2020_01_01)
   = Inr (\<lparr>index = [600, 601],
            colonnes = [(''Autres pays'', [1, 0]), (''Pays francophones'', [1, 1]), (''Total'', [2, 1])]\<rparr>,
          \<lparr>index = [600, 601],
            colonnes = [(''Autres pays'', [50, 0]), (''Pays francophones'', [50, 100]), (''Total'', [100, 100])]\<rparr>)"
  by code_simp

lemma exemple_Q:
  "analyser_ventes_francophones disque ''ventesdolibarr.csv'' ''Customer country code'' ''Sale Date''
      ''Q'' (Timestamp t_2020_01_01)
   = Inr (\<lparr>index = [200],
            colonnes = [(''Autres pays'', [1]), (''Pays francophones'', [2]), (''Total'', [3])]\<rparr>,
          \<lparr>index = [200],
            colonnes = [(''Autres pays'', [2345624805922133 / 70368744177664]),
                        (''Pays francophones'', [2345624805922133 / 35184372088832]),
                        (''Total'', [100])]\<rparr>)"
  by code_simp

lemma exemple_somme: "fl64 (2345624805922133 / 35184372088832 + 2345624805922133 / 70368744177664)
   = 7036874417766399 / 70368744177664"
  by code_simp

lemma table_comptes_colonnes:
  "colonnes (table_comptes pr) =
     [(''Autres pays'', map (\<lambda>i. of_nat (count_list pr (i, False))) (sorted_list_of_set (fst ` set pr))),
      (''Pays francophones'', map (\<lambda>i. of_nat (count_list pr (i, True))) (sorted_list_of_set (fst ` set pr))),
      (''Total'', map (\<lambda>i. of_nat (count_list pr (i, False)) + of_nat (count_list pr (i, True)))
                     (sorted_list_of_set (fst ` set pr)))]"
  and table_comptes_index: "index (table_comptes pr) = sorted_list_of_set (fst ` set pr)"
  by (simp_all add: table_comptes_def Let_def)

lemma pourcentages_de_colonnes:
  "colonnes (pourcentages_de pr) =
     [(''Autres pays'', map (\<lambda>i. pct (of_nat (count_list pr (i, False)))
                                      (of_nat (count_list pr (i, False)) + of_nat (count_list pr (i, True))))
                           (sorted_list_of_set (fst ` set pr))),
      (''Pays francophones'', map (\<lambda>i. pct (of_nat (count_list pr (i, True)))
                                      (of_nat (count_list pr (i, False)) + of_nat (count_list pr (i, True))))
                           (sorted_list_of_set (fst ` set pr))),
      (''Total'', map (\<lambda>i. if (0::rat) < of_nat (count_list pr (i, False)) + of_nat (count_list pr (i, True))
                            then 100 else 0)
                     (sorted_list_of_set (fst ` set pr)))]"
  and pourcentages_de_index: "index (pourcentages_de pr) = sorted_list_of_set (fst ` set pr)"
  by (simp_all add: pourcentages_de_def table_pourcentages_def Let_def map2_map_map comp_def)

lemma total_pos:
  assumes "i \<in> fst ` set pr"
  shows "(0::rat) < of_nat (count_list pr (i, False)) + of_nat (count_list pr (i, True))"
proof -
  from assms have "i \<in> set (map fst pr)" by simp
  then have "count_list (map fst pr) i \<noteq> 0" by (simp only: count_list_0_iff not_not)
  then have "0 < count_list pr (i, False) + count_list pr (i, True)" by (simp add: count_fst)
  then have "(0::rat) < of_nat (count_list pr (i, False) + count_list pr (i, True))"
    by (simp only: of_nat_0_less_iff)
  then show ?thesis by simp
qed

section \<open>Properties of the table of counts\<close>

text \<open>
  Claim C3. In every row of the table of counts that the routine returns, the count of
  francophone sales plus the count of other sales is the total of the row.
\<close>

theorem total_somme_des_classes:
  assumes "analyser_ventes_francophones read_csv fichier_csv colonne_pays colonne_date regroupement date_debut = Inr (t, p)"
  shows "\<exists>a f n. colonnes t = [(''Autres pays'', a), (''Pays francophones'', f), (''Total'', n)]
           \<and> length a = length (index t) \<and> length f = length (index t) \<and> length n = length (index t)
           \<and> (\<forall>i<length (index t). f ! i + a ! i = n ! i)"
  using assms
proof (rule analyser_Inr_D)
  fix df
  assume t: "t = table_comptes (presents regroupement (filtrage date_debut (lignes df)))"
  define pr where "pr = presents regroupement (filtrage date_debut (lignes df))"
  define idx where "idx = sorted_list_of_set (fst ` set pr)"
  define a :: "rat list" where "a = map (\<lambda>i. of_nat (count_list pr (i, False))) idx"
  define f :: "rat list" where "f = map (\<lambda>i. of_nat (count_list pr (i, True))) idx"
  define n :: "rat list" where
    "n = map (\<lambda>i. of_nat (count_list pr (i, False)) + of_nat (count_list pr (i, True))) idx"
  have c: "colonnes t = [(''Autres pays'', a), (''Pays francophones'', f), (''Total'', n)]"
    and i: "index t = idx"
    by (simp_all add: t table_comptes_def Let_def pr_def idx_def a_def f_def n_def)
  have l: "length a = length idx" "length f = length idx" "length n = length idx"
    by (simp_all add: a_def f_def n_def)
  have s: "\<forall>i<length idx. f ! i + a ! i = n ! i"
    by (simp add: a_def f_def n_def)
  from c l s show ?thesis unfolding i by blast
qed

theorem total_somme_des_classes_witness:
  "analyser_ventes_francophones disque ''ventesdolibarr.csv'' ''Customer country code'' ''Sale Date''
      ''M'' (Timestamp t_2020_01_01)
   = Inr (\<lparr>index = [600, 601],
            colonnes = [(''Autres pays'', [1, 0]), (''Pays francophones'', [1, 1]), (''Total'', [2, 1])]\<rparr>,
          \<lparr>index = [600, 601],
            colonnes = [(''Autres pays'', [50, 0]), (''Pays francophones'', [50, 100]), (''Total'', [100, 100])]\<rparr>)
   \<and> (\<exists>a f n. [(''Autres pays'', [1, 0]), (''Pays francophones'', [1, 1]), (''Total'', [2, 1 :: rat])]
                 = [(''Autres pays'', a), (''Pays francophones'', f), (''Total'', n)]
           \<and> (\<forall>i<2. f ! i + a ! i = n ! i))"
proof -
  from total_somme_des_classes [OF exemple_M]
  have "\<exists>a f n. [(''Autres pays'', [1, 0]), (''Pays francophones'', [1, 1]), (''Total'', [2, 1 :: rat])]
                 = [(''Autres pays'', a), (''Pays francophones'', f), (''Total'', n)]
           \<and> (\<forall>i<2. f ! i + a ! i = n ! i)"
    by simp
  with exemple_M show ?thesis by (rule conjI)
qed

text \<open>
  Whenever the routine returns its tables, the totals of the table of counts add up to the
  number of rows that pass the filter on the start date. The periods of the table are
  exactly the periods of the filtered rows, each once, and the total of a period is the
  number of filtered rows in it.
\<close>

lemma somme_des_totaux:
  assumes "analyser_ventes_francophones read_csv fichier_csv colonne_pays colonne_date regroupement date_debut = Inr (t, p)"
    and "read_csv fichier_csv = Charge df"
  shows "\<exists>n. getcol ''Total'' t = Inr n \<and> length n = length (index t)
           \<and> sum_list n = of_nat (length (filtrage date_debut (lignes df)))
           \<and> distinct (index t)
           \<and> set (index t) = {q. \<exists>v\<in>set (filtrage date_debut (lignes df)).
                                      to_period regroupement (date v) = Some q}
           \<and> (\<forall>i<length (index t).
                 n ! i = of_nat (length (filter (\<lambda>v. to_period regroupement (date v) = Some (index t ! i))
                                           (filtrage date_debut (lignes df))))
                 \<and> 0 < n ! i)"
  using assms(1)
proof (rule analyser_Inr_D)
  fix df'
  assume r: "read_csv fichier_csv = Charge df'"
    and t: "t = table_comptes (presents regroupement (filtrage date_debut (lignes df')))"
  from r assms(2) have df: "df' = df" by simp
  define rows where "rows = filtrage date_debut (lignes df)"
  define pr where "pr = presents regroupement rows"
  define idx where "idx = sorted_list_of_set (fst ` set pr)"
  define n :: "rat list" where
    "n = map (\<lambda>i. of_nat (count_list pr (i, False)) + of_nat (count_list pr (i, True))) idx"
  have tot: "getcol ''Total'' t = Inr n" and i: "index t = idx"
    by (simp_all add: t df table_comptes_def Let_def pr_def rows_def idx_def n_def getcol_def)
  have per: "\<forall>v\<in>set rows. \<exists>q. to_period regroupement (date v) = Some q"
    unfolding rows_def using to_period_filtrage by blast
  have len: "length pr = length rows"
    unfolding pr_def using per by (rule length_presents)
  have 1: "length n = length idx" by (simp add: n_def)
  have 2: "sum_list n = of_nat (length rows)"
    unfolding n_def idx_def sum_total len ..
  have 3: "distinct idx" by (simp add: idx_def)
  have "set idx = fst ` set pr" by (simp add: idx_def)
  then have 4: "set idx = {q. \<exists>v\<in>set rows. to_period regroupement (date v) = Some q}"
    by (simp only: pr_def fst_presents)
  have 5: "n ! i = of_nat (length (filter (\<lambda>v. to_period regroupement (date v) = Some (idx ! i)) rows))
             \<and> 0 < n ! i" if "i < length idx" for i
  proof -
    have "n ! i = of_nat (count_list (map fst pr) (idx ! i))"
      using that by (simp add: n_def count_fst)
    also have "count_list (map fst pr) (idx ! i)
                 = length (filter (\<lambda>v. to_period regroupement (date v) = Some (idx ! i)) rows)"
      unfolding pr_def by (rule count_presents)
    finally have a: "n ! i = of_nat (length (filter (\<lambda>v. to_period regroupement (date v) = Some (idx ! i)) rows))" .
    from that have "idx ! i \<in> set idx" by simp
    then have "idx ! i \<in> fst ` set pr" by (simp add: idx_def)
    then have "(0::rat) < of_nat (count_list pr (idx ! i, False)) + of_nat (count_list pr (idx ! i, True))"
      by (rule total_pos)
    then have "0 < n ! i" using that by (simp add: n_def)
    with a show ?thesis by simp
  qed
  from tot 1 2 3 4 5 show ?thesis
    unfolding i rows_def by blast
qed

text \<open>
  When every check passes and both classes of countries occur among the filtered rows, the
  routine does return its tables, so that every filtered row is counted.
\<close>

lemma analyser_deux_classes:
  assumes "read_csv fichier_csv = Charge df"
    and "colonne_pays \<in> set (columns df)" and "colonne_date \<in> set (columns df)"
    and "Illisible \<notin> date ` set (lignes df)" and "date_debut \<noteq> Illisible"
    and "regroupement \<in> {''W'', ''M'', ''Q'', ''Y''}"
    and "\<exists>v\<in>set (filtrage date_debut (lignes df)). est_francophone (pays v)"
    and "\<exists>v\<in>set (filtrage date_debut (lignes df)). \<not> est_francophone (pays v)"
  shows "analyser_ventes_francophones read_csv fichier_csv colonne_pays colonne_date regroupement date_debut
           = Inr (table_comptes (presents regroupement (filtrage date_debut (lignes df))),
                  pourcentages_de (presents regroupement (filtrage date_debut (lignes df))))"
proof -
  define rows where "rows = filtrage date_debut (lignes df)"
  have per: "\<forall>v\<in>set rows. \<exists>q. to_period regroupement (date v) = Some q"
    unfolding rows_def using to_period_filtrage by blast
  have "snd ` set (presents regroupement rows) = (\<lambda>v. est_francophone (pays v)) ` set rows"
    using per by (rule snd_presents)
  also have "\<dots> = {False, True}"
    using assms(7,8) unfolding rows_def [symmetric] by (auto simp add: image_iff)
  finally have s: "snd ` set (presents regroupement rows) = {False, True}" .
  from assms(7) have ne: "rows \<noteq> []" unfolding rows_def [symmetric] by auto
  from assms(7) obtain v where v: "v \<in> set rows" "est_francophone (pays v)"
    unfolding rows_def [symmetric] by blast
  from v(2) have "pays v \<noteq> None"
    by (cases "pays v") (simp_all add: est_francophone_def normalisation_def isin_def)
  moreover from v(1) have "v \<in> set (lignes df)" by (simp add: rows_def filtrage_def)
  ultimately have tx: "\<not> (\<forall>v\<in>set (lignes df). pays v = None)" by auto
  show ?thesis
    unfolding analyser_Charge [of read_csv fichier_csv df, OF assms(1)] rows_def [symmetric]
    using assms(2-6) ne tx s by simp
qed

lemma somme_des_totaux_deux_classes:
  assumes "read_csv fichier_csv = Charge df"
    and "colonne_pays \<in> set (columns df)" and "colonne_date \<in> set (columns df)"
    and "Illisible \<notin> date ` set (lignes df)" and "date_debut \<noteq> Illisible"
    and "regroupement \<in> {''W'', ''M'', ''Q'', ''Y''}"
    and "\<exists>v\<in>set (filtrage date_debut (lignes df)). est_francophone (pays v)"
    and "\<exists>v\<in>set (filtrage date_debut (lignes df)). \<not> est_francophone (pays v)"
  shows "\<exists>t p n. analyser_ventes_francophones read_csv fichier_csv colonne_pays colonne_date regroupement date_debut
                    = Inr (t, p)
           \<and> getcol ''Total'' t = Inr n
           \<and> sum_list n = of_nat (length (filtrage date_debut (lignes df)))"
proof -
  note r = analyser_deux_classes [of read_csv fichier_csv df colonne_pays colonne_date date_debut
      regroupement, OF assms]
  from somme_des_totaux [of read_csv fichier_csv colonne_pays colonne_date regroupement date_debut
      _ _ df, OF r assms(1)] r
  show ?thesis by blast
qed

text \<open>
  Claim C4, which the code does not meet. The totals are to add up to the number of
  filtered rows for every set of rows. When the filtered rows are all of one class, the
  run ends with the \<^verbatim>\<open>ValueError\<close> of line 99 and no row is counted: on
  \<open>ventes_autres\<close>, two rows pass the filter and the run gives no table.
\<close>

theorem ventes_non_comptees:
  "length (filtrage (Timestamp t_2020_01_01) (lignes ventes_autres)) = 2
   \<and> analyser_ventes_francophones disque ''autres.csv'' ''Customer country code'' ''Sale Date''
        ''M'' (Timestamp t_2020_01_01) = Inl (LengthMismatch 1 2)"
proof -
  have 1: "length (filtrage (Timestamp t_2020_01_01) (lignes ventes_autres)) = 2"
    by code_simp
  have 2: "analyser_ventes_francophones disque ''autres.csv'' ''Customer country code'' ''Sale Date''
        ''M'' (Timestamp t_2020_01_01) = Inl (LengthMismatch 1 2)"
    by code_simp
  from 1 2 show ?thesis by (rule conjI)
qed

lemma analyser_permutation:
  assumes "read_csv fichier_csv = Charge df" and "read_csv' fichier_csv' = Charge df'"
    and "columns df' = columns df" and "mset (lignes df') = mset (lignes df)"
  shows "analyser_ventes_francophones read_csv' fichier_csv' colonne_pays colonne_date regroupement date_debut
       = analyser_ventes_francophones read_csv fichier_csv colonne_pays colonne_date regroupement date_debut"
proof -
  define rows where "rows = filtrage date_debut (lignes df)"
  define rows' where "rows' = filtrage date_debut (lignes df')"
  have s: "set (lignes df') = set (lignes df)"
    using assms(4) by (rule mset_eq_setD)
  have mr: "mset rows' = mset rows"
    by (simp add: rows_def rows'_def filtrage_def assms(4))
  then have "length rows' = length rows" by (rule mset_eq_length)
  then have e: "rows' = [] \<longleftrightarrow> rows = []" by (metis length_0_conv)
  have mp: "mset (presents regroupement rows') = mset (presents regroupement rows)"
    by (simp only: mset_presents mr)
  have sp: "set (presents regroupement rows') = set (presents regroupement rows)"
    using mp by (rule mset_eq_setD)
  note tp = table_comptes_mset [OF mp]
  show ?thesis
    unfolding analyser_Charge [of read_csv fichier_csv df, OF assms(1)]
      analyser_Charge [of read_csv' fichier_csv' df', OF assms(2)]
      rows_def [symmetric] rows'_def [symmetric] assms(3) s e sp tp ..
qed

text \<open>
  Claim C5. The periods of the tables that the routine returns are in strictly ascending
  order, the same in both tables; and two inputs with the same columns whose rows are a
  permutation of each other give the same outcome.
\<close>

theorem ordre_et_permutation:
  "(analyser_ventes_francophones read_csv fichier_csv colonne_pays colonne_date regroupement date_debut = Inr (t, p)
      \<longrightarrow> sorted_wrt (<) (index t) \<and> index p = index t)
   \<and> (read_csv fichier_csv = Charge df \<and> read_csv' fichier_csv' = Charge df'
        \<and> columns df' = columns df \<and> mset (lignes df') = mset (lignes df)
      \<longrightarrow> analyser_ventes_francophones read_csv' fichier_csv' colonne_pays colonne_date regroupement date_debut
          = analyser_ventes_francophones read_csv fichier_csv colonne_pays colonne_date regroupement date_debut)"
proof (intro conjI impI)
  assume a: "analyser_ventes_francophones read_csv fichier_csv colonne_pays colonne_date regroupement date_debut = Inr (t, p)"
  from a show "sorted_wrt (<) (index t)"
  proof (rule analyser_Inr_D)
    fix d
    assume "t = table_comptes (presents regroupement (filtrage date_debut (lignes d)))"
    then show ?thesis by (simp add: table_comptes_index strict_sorted_iff)
  qed
  from a show "index p = index t"
  proof (rule analyser_Inr_D)
    fix d
    assume "t = table_comptes (presents regroupement (filtrage date_debut (lignes d)))"
      and "p = pourcentages_de (presents regroupement (filtrage date_debut (lignes d)))"
    then show ?thesis by (simp add: table_comptes_index pourcentages_de_index)
  qed
next
  assume "read_csv fichier_csv = Charge df \<and> read_csv' fichier_csv' = Charge df'
        \<and> columns df' = columns df \<and> mset (lignes df') = mset (lignes df)"
  then show "analyser_ventes_francophones read_csv' fichier_csv' colonne_pays colonne_date regroupement date_debut
          = analyser_ventes_francophones read_csv fichier_csv colonne_pays colonne_date regroupement date_debut"
    using analyser_permutation by blast
qed

theorem ordre_et_permutation_witness:
  "sorted_wrt (<) [600, 601 :: int]
   \<and> analyser_ventes_francophones disque ''permutees.csv'' ''Customer country code'' ''Sale Date''
        ''M'' (Timestamp t_2020_01_01)
     = analyser_ventes_francophones disque ''ventesdolibarr.csv'' ''Customer country code'' ''Sale Date''
        ''M'' (Timestamp t_2020_01_01)"
proof -
  have d: "disque ''ventesdolibarr.csv'' = Charge ventes_exemple"
    "disque ''permutees.csv'' = Charge ventes_permutees"
    by (simp_all add: disque_def)
  have c: "columns ventes_permutees = columns ventes_exemple"
    by (simp add: ventes_permutees_def ventes_exemple_def)
  have m: "mset (lignes ventes_permutees) = mset (lignes ventes_exemple)"
    by (simp add: ventes_permutees_def ventes_exemple_def)
  from ordre_et_permutation [of disque "''ventesdolibarr.csv''" "''Customer country code''" "''Sale Date''"
      "''M''" "Timestamp t_2020_01_01" _ _ ventes_exemple disque "''permutees.csv''" ventes_permutees]
    exemple_M d c m
  show ?thesis by simp
qed

section \<open>The counts survive the percentages\<close>

text \<open>
  Claim C10. Computing the percentages does not change the counts. On the store, the
  percentage step writes only into the object it has just allocated, so the table of counts
  it was given is as before; and the table of counts that the routine returns is the table
  that the counting step produced, with its natural-number entries.
\<close>

theorem comptes_inchanges:
  "(ventes_pourcentages vpp s = Inr (vpct, s') \<and> vpp < suivant s
      \<longrightarrow> vpct \<noteq> vpp \<and> objets s' vpp = objets s vpp)
   \<and> (analyser_ventes_francophones read_csv fichier_csv colonne_pays colonne_date regroupement date_debut = Inr (t, p)
        \<and> read_csv fichier_csv = Charge df
      \<longrightarrow> ventes_par_periode regroupement (filtrage date_debut (lignes df)) = Inr t
          \<and> list_all (\<lambda>c. list_all (\<lambda>x. x \<in> \<nat>) (snd c)) (colonnes t))"
proof (intro conjI impI)
  assume a: "ventes_pourcentages vpp s = Inr (vpct, s') \<and> vpp < suivant s"
  then have f: "vpct = suivant s \<and> (\<forall>r. r \<noteq> suivant s \<longrightarrow> objets s' r = objets s r)"
    using ventes_pourcentages_frame by blast
  with a show "vpct \<noteq> vpp" by simp
  from a f show "objets s' vpp = objets s vpp" by simp
next
  assume a: "analyser_ventes_francophones read_csv fichier_csv colonne_pays colonne_date regroupement date_debut = Inr (t, p)
        \<and> read_csv fichier_csv = Charge df"
  then have r: "read_csv fichier_csv = Charge df" by simp
  from a have "analyser_ventes_francophones read_csv fichier_csv colonne_pays colonne_date regroupement date_debut = Inr (t, p)"
    by simp
  then have c: "snd ` set (presents regroupement (filtrage date_debut (lignes df))) = {False, True}
      \<and> t = table_comptes (presents regroupement (filtrage date_debut (lignes df)))"
  proof (rule analyser_Inr_D)
    fix d
    assume "read_csv fichier_csv = Charge d"
      and "snd ` set (presents regroupement (filtrage date_debut (lignes d))) = {False, True}"
      and "t = table_comptes (presents regroupement (filtrage date_debut (lignes d)))"
    with r show ?thesis by simp
  qed
  then show "ventes_par_periode regroupement (filtrage date_debut (lignes df)) = Inr t"
    by (simp add: ventes_par_periode_closed)
  from c have "t = table_comptes (presents regroupement (filtrage date_debut (lignes df)))"
    by simp
  then show "list_all (\<lambda>c. list_all (\<lambda>x. x \<in> \<nat>) (snd c)) (colonnes t)"
    by (simp add: table_comptes_colonnes list_all_iff)
qed

theorem comptes_inchanges_witness:
  "(\<exists>vpct s'. ventes_pourcentages 0
        (snd (nouveau \<lparr>index = [600, 601],
                 colonnes = [(''Autres pays'', [1, 0]), (''Pays francophones'', [1, 1]), (''Total'', [2, 1])]\<rparr>
              tas_vide)) = Inr (vpct, s')
      \<and> vpct \<noteq> 0
      \<and> objets s' 0 = \<lparr>index = [600, 601],
                 colonnes = [(''Autres pays'', [1, 0]), (''Pays francophones'', [1, 1]), (''Total'', [2, 1])]\<rparr>)
   \<and> ventes_par_periode ''M'' (filtrage (Timestamp t_2020_01_01) (lignes ventes_exemple))
     = Inr \<lparr>index = [600, 601],
            colonnes = [(''Autres pays'', [1, 0]), (''Pays francophones'', [1, 1]), (''Total'', [2, 1])]\<rparr>"
proof -
  define T :: "string frame" where
    "T = \<lparr>index = [600, 601],
          colonnes = [(''Autres pays'', [1, 0]), (''Pays francophones'', [1, 1]), (''Total'', [2, 1])]\<rparr>"
  define s where "s = snd (nouveau T tas_vide)"
  have o: "objets s 0 = T" and n: "suivant s = Suc 0"
    by (simp_all add: s_def nouveau_def tas_vide_def)
  have "ventes_pourcentages 0 s =
          Inr (suivant s, s\<lparr>suivant := Suc (suivant s),
                 objets := (objets s)(suivant s := table_pourcentages [600, 601] [1, 0] [1, 1] [2, 1])\<rparr>)"
    by (rule ventes_pourcentages_run) (simp_all add: o T_def n)
  then obtain vpct s' where r: "ventes_pourcentages 0 s = Inr (vpct, s')" by blast
  have d: "disque ''ventesdolibarr.csv'' = Charge ventes_exemple"
    by (simp add: disque_def)
  from comptes_inchanges [of 0 s vpct s' disque "''ventesdolibarr.csv''" "''Customer country code''"
      "''Sale Date''" "''M''" "Timestamp t_2020_01_01" T _ ventes_exemple] r n o d exemple_M
  have "vpct \<noteq> 0 \<and> objets s' 0 = T
      \<and> ventes_par_periode ''M'' (filtrage (Timestamp t_2020_01_01) (lignes ventes_exemple)) = Inr T"
    by (simp add: T_def)
  with r show ?thesis unfolding s_def T_def by blast
qed

section \<open>A single class of countries\<close>

lemma une_seule_classe:
  assumes "read_csv fichier_csv = Charge df"
    and "colonne_pays \<in> set (columns df)" and "colonne_date \<in> set (columns df)"
    and "Illisible \<notin> date ` set (lignes df)" and "date_debut \<noteq> Illisible"
    and "filtrage date_debut (lignes df) \<noteq> []"
    and "regroupement \<in> {''W'', ''M'', ''Q'', ''Y''}"
    and "\<forall>v\<in>set (filtrage date_debut (lignes df)). est_francophone (pays v) = b"
    and "\<exists>v\<in>set (lignes df). pays v \<noteq> None"
  shows "analyser_ventes_francophones read_csv fichier_csv colonne_pays colonne_date regroupement date_debut
           = Inl (LengthMismatch 1 2)"
proof -
  define rows where "rows = filtrage date_debut (lignes df)"
  have per: "\<forall>v\<in>set rows. \<exists>q. to_period regroupement (date v) = Some q"
    unfolding rows_def using to_period_filtrage by blast
  have "snd ` set (presents regroupement rows) = (\<lambda>v. est_francophone (pays v)) ` set rows"
    using per by (rule snd_presents)
  also have "\<dots> = {b}"
    using assms(6,8) unfolding rows_def [symmetric] by (cases rows) auto
  finally have s: "snd ` set (presents regroupement rows) = {b}" .
  have n: "{b} \<noteq> {False, True}" by (cases b) auto
  show ?thesis
    unfolding analyser_Charge [of read_csv fichier_csv df, OF assms(1)] rows_def [symmetric] s
    using assms(2-7,9) n by (simp add: rows_def)
qed

text \<open>
  Claim C2, which the code does not meet. When every sale that passes the filter is
  francophone, \<^verbatim>\<open>unstack\<close> gives a table with the single column \<^verbatim>\<open>True\<close>, and line 99
  assigns two labels to it: the run ends with the \<^verbatim>\<open>ValueError\<close> of a length mismatch
  (one column, two labels) before lines 101-105, which were to add the missing column, are
  reached. The run below is on \<open>ventes_francophones\<close>.
\<close>

theorem une_seule_classe_echoue:
  "analyser_ventes_francophones disque ''francophones.csv'' ''Customer country code'' ''Sale Date''
      ''M'' (Timestamp t_2020_01_01) = Inl (LengthMismatch 1 2)"
  by code_simp

section \<open>Percentages\<close>

lemma pct_somme:
  fixes cf ca :: nat
  assumes "0 < cf + ca" and "cf + ca < 2 ^ 53"
  shows "\<bar>fmul (truediv (of_nat cf) (of_nat ca + of_nat cf)) 100
          + fmul (truediv (of_nat ca) (of_nat ca + of_nat cf)) 100 - 100\<bar> \<le> 201 / 2 ^ 53"
proof -
  have "int cf + int ca < 2 ^ 53"
    using assms(2) by (metis of_nat_add of_nat_less_iff of_nat_numeral of_nat_power)
  moreover have "0 < int cf + int ca" using assms(1) by linarith
  ultimately have "\<bar>fmul (truediv (of_int (int cf)) (of_int (int cf + int ca))) 100
          + fmul (truediv (of_int (int ca)) (of_int (int cf + int ca))) 100 - 100\<bar> \<le> 201 / 2 ^ 53"
    by (intro pct_sum_bound) simp_all
  then show ?thesis by (simp add: add.commute)
qed

text \<open>
  Claim C1, as the code has it. In a row with a positive total, the percentage of
  francophone sales is the count divided by the total, then multiplied by 100, and the
  percentage of other sales is computed in the same way from its own count, each in
  binary64 arithmetic; the total of the percentage table is set to 100. The two
  percentages add up to 100 within \<open>201 / 2\<^sup>5\<^sup>3\<close> (for fewer than \<open>2\<^sup>5\<^sup>3\<close> rows), not
  always to 100 exactly.
\<close>

theorem pourcentages_par_division:
  assumes "analyser_ventes_francophones read_csv fichier_csv colonne_pays colonne_date regroupement date_debut = Inr (t, p)"
    and "read_csv fichier_csv = Charge df" and "length (lignes df) < 2 ^ 53"
  shows "\<exists>a f n pa pf pn.
      colonnes t = [(''Autres pays'', a), (''Pays francophones'', f), (''Total'', n)]
    \<and> colonnes p = [(''Autres pays'', pa), (''Pays francophones'', pf), (''Total'', pn)]
    \<and> length a = length n \<and> length f = length n
    \<and> length pa = length n \<and> length pf = length n \<and> length pn = length n
    \<and> (\<forall>i<length n. 0 < n ! i
          \<and> pf ! i = fmul (truediv (f ! i) (n ! i)) 100
          \<and> pa ! i = fmul (truediv (a ! i) (n ! i)) 100
          \<and> pn ! i = 100
          \<and> \<bar>pf ! i + pa ! i - 100\<bar> \<le> 201 / 2 ^ 53)"
  using assms(1)
proof (rule analyser_Inr_D)
  fix df'
  assume r: "read_csv fichier_csv = Charge df'"
    and t: "t = table_comptes (presents regroupement (filtrage date_debut (lignes df')))"
    and p: "p = pourcentages_de (presents regroupement (filtrage date_debut (lignes df')))"
  from r assms(2) have df: "df' = df" by simp
  define pr where "pr = presents regroupement (filtrage date_debut (lignes df))"
  define idx where "idx = sorted_list_of_set (fst ` set pr)"
  define ca where "ca = (\<lambda>i. count_list pr (i, False))"
  define cf where "cf = (\<lambda>i. count_list pr (i, True))"
  define a :: "rat list" where "a = map (\<lambda>i. of_nat (ca i)) idx"
  define f :: "rat list" where "f = map (\<lambda>i. of_nat (cf i)) idx"
  define n :: "rat list" where "n = map (\<lambda>i. of_nat (ca i) + of_nat (cf i)) idx"
  define pa :: "rat list" where "pa = map (\<lambda>i. pct (of_nat (ca i)) (of_nat (ca i) + of_nat (cf i))) idx"
  define pf :: "rat list" where "pf = map (\<lambda>i. pct (of_nat (cf i)) (of_nat (ca i) + of_nat (cf i))) idx"
  define pn :: "rat list" where
    "pn = map (\<lambda>i. if (0::rat) < of_nat (ca i) + of_nat (cf i) then 100 else 0) idx"
  have ct: "colonnes t = [(''Autres pays'', a), (''Pays francophones'', f), (''Total'', n)]"
    by (simp add: t df table_comptes_colonnes pr_def idx_def a_def f_def n_def ca_def cf_def)
  have cp: "colonnes p = [(''Autres pays'', pa), (''Pays francophones'', pf), (''Total'', pn)]"
    by (simp add: p df pourcentages_de_colonnes pr_def idx_def pa_def pf_def pn_def ca_def cf_def)
  have l: "length a = length n" "length f = length n" "length pa = length n" "length pf = length n"
    "length pn = length n"
    by (simp_all add: a_def f_def n_def pa_def pf_def pn_def)
  have small: "length pr < 2 ^ 53"
  proof -
    have "length pr \<le> length (filtrage date_debut (lignes df))"
      by (simp add: pr_def presents_def cles_def map_filter_def)
    also have "\<dots> \<le> length (lignes df)" by (simp add: filtrage_def)
    finally show ?thesis using assms(3) by simp
  qed
  have row: "0 < n ! i \<and> pf ! i = fmul (truediv (f ! i) (n ! i)) 100
          \<and> pa ! i = fmul (truediv (a ! i) (n ! i)) 100 \<and> pn ! i = 100
          \<and> \<bar>pf ! i + pa ! i - 100\<bar> \<le> 201 / 2 ^ 53" if "i < length n" for i
  proof -
    from that have i: "i < length idx" by (simp add: n_def)
    define q where "q = idx ! i"
    from i have "q \<in> set idx" by (simp add: q_def)
    then have "q \<in> fst ` set pr" by (simp add: idx_def)
    then have pos: "(0::rat) < of_nat (ca q) + of_nat (cf q)"
      unfolding ca_def cf_def by (rule total_pos)
    then have pos': "0 < cf q + ca q"
      by (metis add.commute of_nat_0_less_iff of_nat_add)
    have "cf q + ca q = count_list (map fst pr) q" by (simp add: ca_def cf_def count_fst)
    also have "\<dots> \<le> length (map fst pr)" by (rule count_le_length)
    finally have "cf q + ca q < 2 ^ 53" using small by simp
    with pos' have b: "\<bar>fmul (truediv (of_nat (cf q)) (of_nat (ca q) + of_nat (cf q))) 100
          + fmul (truediv (of_nat (ca q)) (of_nat (ca q) + of_nat (cf q))) 100 - 100\<bar> \<le> 201 / 2 ^ 53"
      by (rule pct_somme)
    have v: "n ! i = of_nat (ca q) + of_nat (cf q)" "a ! i = of_nat (ca q)" "f ! i = of_nat (cf q)"
      "pa ! i = pct (of_nat (ca q)) (of_nat (ca q) + of_nat (cf q))"
      "pf ! i = pct (of_nat (cf q)) (of_nat (ca q) + of_nat (cf q))"
      "pn ! i = (if (0::rat) < of_nat (ca q) + of_nat (cf q) then 100 else 0)"
      using i by (simp_all add: n_def a_def f_def pa_def pf_def pn_def q_def)
    show ?thesis
      unfolding v using pos b by (simp add: pct_def)
  qed
  from ct cp l row show ?thesis by blast
qed

theorem pourcentages_par_division_witness:
  "length (lignes ventes_exemple) < 2 ^ 53
   \<and> (\<exists>a f n pa pf pn.
       [(''Autres pays'', [1]), (''Pays francophones'', [2]), (''Total'', [3 :: rat])]
         = [(''Autres pays'', a), (''Pays francophones'', f), (''Total'', n)]
     \<and> [(''Autres pays'', [2345624805922133 / 70368744177664]),
         (''Pays francophones'', [2345624805922133 / 35184372088832]), (''Total'', [100 :: rat])]
         = [(''Autres pays'', pa), (''Pays francophones'', pf), (''Total'', pn)]
     \<and> (\<forall>i<length n. 0 < n ! i
          \<and> pf ! i = fmul (truediv (f ! i) (n ! i)) 100
          \<and> pa ! i = fmul (truediv (a ! i) (n ! i)) 100
          \<and> pn ! i = 100
          \<and> \<bar>pf ! i + pa ! i - 100\<bar> \<le> 201 / 2 ^ 53))"
proof -
  have d: "disque ''ventesdolibarr.csv'' = Charge ventes_exemple"
    by (simp add: disque_def)
  have l: "length (lignes ventes_exemple) < 2 ^ 53"
    by (simp add: ventes_exemple_def)
  from pourcentages_par_division [OF exemple_Q d l]
  have "\<exists>a f n pa pf pn.
       [(''Autres pays'', [1]), (''Pays francophones'', [2]), (''Total'', [3 :: rat])]
         = [(''Autres pays'', a), (''Pays francophones'', f), (''Total'', n)]
     \<and> [(''Autres pays'', [2345624805922133 / 70368744177664]),
         (''Pays francophones'', [2345624805922133 / 35184372088832]), (''Total'', [100 :: rat])]
         = [(''Autres pays'', pa), (''Pays francophones'', pf), (''Total'', pn)]
     \<and> (\<forall>i<length n. 0 < n ! i
          \<and> pf ! i = fmul (truediv (f ! i) (n ! i)) 100
          \<and> pa ! i = fmul (truediv (a ! i) (n ! i)) 100
          \<and> pn ! i = 100
          \<and> \<bar>pf ! i + pa ! i - 100\<bar> \<le> 201 / 2 ^ 53)"
    unfolding frame.simps by blast
  with l show ?thesis by (rule conjI)
qed

text \<open>
  Claim C1 as stated fails on the quarter of \<open>ventes_exemple\<close>, with one sale in another
  country and two francophone sales: the percentages are the binary64 values nearest to
  33.33... and 66.66..., each from its own division. Their sum is below 100, exactly and
  as a binary64 sum; the percentage of the others is not 100 minus the percentage of the
  francophones, and the latter is not \<open>100 * 2 / 3\<close>.
\<close>

theorem pourcentages_somme_counterexample:
  "analyser_ventes_francophones disque ''ventesdolibarr.csv'' ''Customer country code'' ''Sale Date''
      ''Q'' (Timestamp t_2020_01_01)
   = Inr (\<lparr>index = [200],
            colonnes = [(''Autres pays'', [1]), (''Pays francophones'', [2]), (''Total'', [3])]\<rparr>,
          \<lparr>index = [200],
            colonnes = [(''Autres pays'', [2345624805922133 / 70368744177664]),
                        (''Pays francophones'', [2345624805922133 / 35184372088832]),
                        (''Total'', [100])]\<rparr>)
   \<and> (2345624805922133 / 35184372088832 + 2345624805922133 / 70368744177664 :: rat) \<noteq> 100
   \<and> fl64 (2345624805922133 / 35184372088832 + 2345624805922133 / 70368744177664) \<noteq> 100
   \<and> (2345624805922133 / 70368744177664 :: rat) \<noteq> 100 - 2345624805922133 / 35184372088832
   \<and> (2345624805922133 / 35184372088832 :: rat) \<noteq> 100 * 2 / 3"
proof -
  have "fl64 (2345624805922133 / 35184372088832 + 2345624805922133 / 70368744177664) \<noteq> 100"
    unfolding exemple_somme by simp
  with exemple_Q show ?thesis by simp
qed

section \<open>Errors and the pair of tables\<close>





end
